theory Spec2Isabelle
  imports Complex_Main
begin

section \<open>Text\<close>

text \<open>
  A JavaScript string is a sequence of UTF-16 code units. A text is modelled as the list
  of its code units, each a natural number; \<open>str\<close> embeds an ASCII literal.
\<close>

type_synonym jsstring = "nat list"

text \<open>
  The code units that the definitions below name by their number:
  9 tab, 10 line feed, 12 form feed, 13 carriage return, 32 space,
  34 \<open>"\<close>, 43 \<open>+\<close>, 44 \<open>,\<close>, 45 \<open>-\<close>, 46 \<open>.\<close>, 47 \<open>/\<close>, 48 to 57 the digits,
  58 \<open>:\<close>, 69 \<open>E\<close>, 91 \<open>[\<close>, 92 the backslash, 93 \<open>]\<close>, 96 the backquote,
  98 \<open>b\<close>, 101 \<open>e\<close>, 102 \<open>f\<close>, 110 \<open>n\<close>, 114 \<open>r\<close>, 116 \<open>t\<close>, 117 \<open>u\<close>,
  123 \<open>{\<close>, 125 \<open>}\<close>.
\<close>

definition str :: "string \<Rightarrow> jsstring" where
  "str s = map of_char s"

text \<open>
  \<open>String.prototype.trim\<close> and the regular expression class \<open>\s\<close> remove
  the same code units: the WhiteSpace and LineTerminator productions of ECMAScript.
\<close>

definition isWhiteSpace :: "nat \<Rightarrow> bool" where
  "isWhiteSpace c \<longleftrightarrow>
     c = 9 \<or> c = 10 \<or> c = 11 \<or> c = 12 \<or> c = 13 \<or> c = 32 \<or> c = 160 \<or> c = 5760 \<or>
     (8192 \<le> c \<and> c \<le> 8202) \<or> c = 8232 \<or> c = 8233 \<or> c = 8239 \<or> c = 8287 \<or>
     c = 12288 \<or> c = 65279"

definition trim :: "jsstring \<Rightarrow> jsstring" where
  "trim s = rev (dropWhile isWhiteSpace (rev (dropWhile isWhiteSpace s)))"

definition startsWith :: "jsstring \<Rightarrow> jsstring \<Rightarrow> bool" where
  "startsWith s p \<longleftrightarrow> take (length p) s = p"

definition endsWith :: "jsstring \<Rightarrow> jsstring \<Rightarrow> bool" where
  "endsWith s p \<longleftrightarrow> length p \<le> length s \<and> drop (length s - length p) s = p"

text \<open>\<open>s.indexOf(p)\<close>: the first position where \<open>p\<close> occurs, \<open>None\<close> for -1.\<close>

fun indexOf :: "jsstring \<Rightarrow> jsstring \<Rightarrow> nat option" where
  "indexOf [] p = (if p = [] then Some 0 else None)"
| "indexOf (c # cs) p =
     (if startsWith (c # cs) p then Some 0 else map_option Suc (indexOf cs p))"

definition includes_text :: "jsstring \<Rightarrow> jsstring \<Rightarrow> bool" where
  "includes_text s p \<longleftrightarrow> indexOf s p \<noteq> None"

text \<open>
  \<open>s.substring(a, b)\<close> for non-negative integers: both ends are clamped to the length
  and swapped when out of order.
\<close>

definition substring :: "jsstring \<Rightarrow> nat \<Rightarrow> nat \<Rightarrow> jsstring" where
  "substring s a b =
     (let a' = min a (length s); b' = min b (length s);
          lo = min a' b'; hi = max a' b'
      in take (hi - lo) (drop lo s))"

fun join :: "jsstring \<Rightarrow> jsstring list \<Rightarrow> jsstring" where
  "join sep [] = []"
| "join sep [x] = x"
| "join sep (x # y # ys) = x @ sep @ join sep (y # ys)"

section \<open>JSON values\<close>

text \<open>
  The values \<open>JSON.parse\<close> produces. A number carries the exact decimal value of
  its literal; the rounding to a double is applied where a number is consumed. An object
  is the list of its own properties in creation order, with distinct keys.
\<close>

datatype json =
    JNull
  | JBool bool
  | JNumber rat
  | JString jsstring
  | JArray "json list"
  | JObject "(jsstring \<times> json) list"

datatype error =
    SyntaxError
  | TypeError
  | BackendFailure jsstring
  | RoundLimitExceeded int

text \<open>
  ToBoolean. A number is falsy when its double is zero; under round-to-nearest-even a
  decimal value rounds to zero exactly when its magnitude is at most \<open>2 ^ -1075\<close>, half
  of the least positive double.
\<close>

fun truthy :: "json \<Rightarrow> bool" where
  "truthy JNull = False"
| "truthy (JBool b) = b"
| "truthy (JNumber q) = (1 / 2 ^ 1075 < \<bar>q\<bar>)"
| "truthy (JString s) = (s \<noteq> [])"
| "truthy (JArray vs) = True"
| "truthy (JObject ps) = True"

text \<open>
  Property read \<open>v.k\<close> on a parsed value, for a key that no built-in prototype defines
  (the keys read by this program are \<open>function_call\<close>, \<open>name\<close> and \<open>arguments\<close>):
  \<open>null\<close> throws, an object answers with its own property, every other value with
  \<open>undefined\<close> (\<open>None\<close>).
\<close>

fun getProp :: "json \<Rightarrow> jsstring \<Rightarrow> error + json option" where
  "getProp JNull k = Inl TypeError"
| "getProp (JObject ps) k = Inr (map_of ps k)"
| "getProp v k = Inr None"

subsection \<open>JSON.parse\<close>

definition json_ws :: "nat \<Rightarrow> bool" where
  "json_ws c \<longleftrightarrow> c = 32 \<or> c = 9 \<or> c = 10 \<or> c = 13"

definition skip_ws :: "jsstring \<Rightarrow> jsstring" where
  "skip_ws s = dropWhile json_ws s"

definition isDigit :: "nat \<Rightarrow> bool" where
  "isDigit c \<longleftrightarrow> 48 \<le> c \<and> c \<le> 57"

definition isHexDigit :: "nat \<Rightarrow> bool" where
  "isHexDigit c \<longleftrightarrow> isDigit c \<or> (65 \<le> c \<and> c \<le> 70) \<or> (97 \<le> c \<and> c \<le> 102)"

definition hexDigitValue :: "nat \<Rightarrow> nat" where
  "hexDigitValue c = (if isDigit c then c - 48 else if c \<le> 70 then c - 55 else c - 87)"

definition hexValue :: "jsstring \<Rightarrow> nat" where
  "hexValue ds = foldl (\<lambda>a d. 16 * a + hexDigitValue d) 0 ds"

definition decimalValue :: "jsstring \<Rightarrow> nat" where
  "decimalValue ds = foldl (\<lambda>a d. 10 * a + (d - 48)) 0 ds"

text \<open>The character a single-letter escape stands for.\<close>

definition json_escape :: "nat \<Rightarrow> nat option" where
  "json_escape e =
     (if e = 34 then Some 34 else if e = 92 then Some 92 else if e = 47 then Some 47
      else if e = 98 then Some 8 else if e = 102 then Some 12 else if e = 110 then Some 10
      else if e = 114 then Some 13 else if e = 116 then Some 9 else None)"

text \<open>
  The characters of a string literal after its opening quote, up to the closing quote:
  the decoded text and the input that follows.
\<close>

fun json_string :: "jsstring \<Rightarrow> (jsstring \<times> jsstring) option" where
  "json_string [] = None"
| "json_string (c # cs) =
     (if c = 34 then Some ([], cs)
      else if c = 92 then
        (case cs of
           [] \<Rightarrow> None
         | e # r \<Rightarrow>
             if e = 117 then
               (if 4 \<le> length r \<and> list_all isHexDigit (take 4 r)
                then map_option (\<lambda>(t, rest). (hexValue (take 4 r) # t, rest))
                       (json_string (drop 4 r))
                else None)
             else
               (case json_escape e of
                  None \<Rightarrow> None
                | Some x \<Rightarrow> map_option (\<lambda>(t, rest). (x # t, rest)) (json_string r)))
      else if c < 32 then None
      else map_option (\<lambda>(t, rest). (c # t, rest)) (json_string cs))"

text \<open>
  A number literal: optional minus, integer part without a leading zero, optional
  fraction, optional exponent.
\<close>

definition json_int :: "jsstring \<Rightarrow> (jsstring \<times> jsstring) option" where
  "json_int s =
     (if startsWith s [48] then Some ([48], drop 1 s)
      else if takeWhile isDigit s = [] then None
      else Some (takeWhile isDigit s, dropWhile isDigit s))"

definition json_frac :: "jsstring \<Rightarrow> (jsstring \<times> jsstring) option" where
  "json_frac s =
     (if startsWith s [46] then
        (if takeWhile isDigit (drop 1 s) = [] then None
         else Some (takeWhile isDigit (drop 1 s), dropWhile isDigit (drop 1 s)))
      else Some ([], s))"

definition json_exp :: "jsstring \<Rightarrow> (int \<times> jsstring) option" where
  "json_exp s =
     (if startsWith s [101] \<or> startsWith s [69] then
        (let neg = startsWith (drop 1 s) [45];
             t = (if neg \<or> startsWith (drop 1 s) [43] then drop 2 s else drop 1 s)
         in if takeWhile isDigit t = [] then None
            else Some ((if neg then - 1 else 1) * int (decimalValue (takeWhile isDigit t)),
                       dropWhile isDigit t))
      else Some (0, s))"

definition json_number :: "jsstring \<Rightarrow> (rat \<times> jsstring) option" where
  "json_number s =
     (case json_int (if startsWith s [45] then drop 1 s else s) of
        None \<Rightarrow> None
      | Some (ip, s2) \<Rightarrow>
          (case json_frac s2 of
             None \<Rightarrow> None
           | Some (fp, s3) \<Rightarrow>
               (case json_exp s3 of
                  None \<Rightarrow> None
                | Some (ex, s4) \<Rightarrow>
                    Some ((if startsWith s [45] then - 1 else 1)
                          * (of_nat (decimalValue (ip @ fp)) / 10 ^ length fp)
                          * (if ex < 0 then 1 / 10 ^ nat (- ex) else 10 ^ nat ex),
                          s4))))"

text \<open>
  Defining a property while parsing: a repeated key keeps its first position and takes
  the later value.
\<close>

fun obj_put :: "jsstring \<Rightarrow> json \<Rightarrow> (jsstring \<times> json) list \<Rightarrow> (jsstring \<times> json) list" where
  "obj_put k v [] = [(k, v)]"
| "obj_put k v (p # ps) = (if fst p = k then (k, v) # ps else p # obj_put k v ps)"

datatype parse = Parsed json jsstring | Reject | Starved

text \<open>
  Recursive descent over the JSON grammar. The first argument bounds the number of
  nested calls; \<open>JSON_parse\<close> supplies a bound that is never reached
  (\<open>JSON_parse_fuel\<close> below). \<open>json_value\<close> expects the first character of a value,
  \<open>json_elements\<close> the first character of an array element, \<open>json_members\<close> the
  opening quote of a member's key.
\<close>

fun json_value :: "nat \<Rightarrow> jsstring \<Rightarrow> parse"
  and json_elements :: "nat \<Rightarrow> jsstring \<Rightarrow> json list \<Rightarrow> parse"
  and json_members :: "nat \<Rightarrow> jsstring \<Rightarrow> (jsstring \<times> json) list \<Rightarrow> parse"
where
  "json_value 0 s = Starved"
| "json_value (Suc n) s =
     (case s of
        [] \<Rightarrow> Reject
      | c # r \<Rightarrow>
          if c = 123 then
            (if startsWith (skip_ws r) [125] then Parsed (JObject []) (drop 1 (skip_ws r))
             else json_members n (skip_ws r) [])
          else if c = 91 then
            (if startsWith (skip_ws r) [93] then Parsed (JArray []) (drop 1 (skip_ws r))
             else json_elements n (skip_ws r) [])
          else if c = 34 then
            (case json_string r of
               None \<Rightarrow> Reject
             | Some (t, rest) \<Rightarrow> Parsed (JString t) rest)
          else if startsWith s (str ''true'') then Parsed (JBool True) (drop 4 s)
          else if startsWith s (str ''false'') then Parsed (JBool False) (drop 5 s)
          else if startsWith s (str ''null'') then Parsed JNull (drop 4 s)
          else
            (case json_number s of
               None \<Rightarrow> Reject
             | Some (q, rest) \<Rightarrow> Parsed (JNumber q) rest))"
| "json_elements 0 s acc = Starved"
| "json_elements (Suc n) s acc =
     (case json_value n s of
        Starved \<Rightarrow> Starved
      | Reject \<Rightarrow> Reject
      | Parsed v r \<Rightarrow>
          (case skip_ws r of
             [] \<Rightarrow> Reject
           | d # r' \<Rightarrow>
               if d = 44 then json_elements n (skip_ws r') (acc @ [v])
               else if d = 93 then Parsed (JArray (acc @ [v])) r'
               else Reject))"
| "json_members 0 s acc = Starved"
| "json_members (Suc n) s acc =
     (case s of
        [] \<Rightarrow> Reject
      | c # r \<Rightarrow>
          if c \<noteq> 34 then Reject
          else
            (case json_string r of
               None \<Rightarrow> Reject
             | Some (k, r1) \<Rightarrow>
                 (case skip_ws r1 of
                    [] \<Rightarrow> Reject
                  | d # r2 \<Rightarrow>
                      if d \<noteq> 58 then Reject
                      else
                        (case json_value n (skip_ws r2) of
                           Starved \<Rightarrow> Starved
                         | Reject \<Rightarrow> Reject
                         | Parsed v r3 \<Rightarrow>
                             (case skip_ws r3 of
                                [] \<Rightarrow> Reject
                              | e # r4 \<Rightarrow>
                                  if e = 44 then json_members n (skip_ws r4) (obj_put k v acc)
                                  else if e = 125 then Parsed (JObject (obj_put k v acc)) r4
                                  else Reject)))))"

text \<open>
  \<open>JSON.parse(text)\<close>: one value between optional white space, or a SyntaxError.
\<close>

definition JSON_parse :: "jsstring \<Rightarrow> error + json" where
  "JSON_parse s =
     (case json_value (2 * length s + 1) (skip_ws s) of
        Parsed v rest \<Rightarrow> if skip_ws rest = [] then Inr v else Inl SyntaxError
      | Reject \<Rightarrow> Inl SyntaxError
      | Starved \<Rightarrow> Inl SyntaxError)"

subsection \<open>JSON.stringify\<close>

definition hexDigitChar :: "nat \<Rightarrow> nat" where
  "hexDigitChar d = (if d < 10 then 48 + d else 87 + d)"

definition unicodeEscape :: "nat \<Rightarrow> jsstring" where
  "unicodeEscape c =
     [92, 117, hexDigitChar (c div 4096 mod 16), hexDigitChar (c div 256 mod 16),
      hexDigitChar (c div 16 mod 16), hexDigitChar (c mod 16)]"

definition isLeadSurrogate :: "nat \<Rightarrow> bool" where
  "isLeadSurrogate c \<longleftrightarrow> 55296 \<le> c \<and> c \<le> 56319"

definition isTrailSurrogate :: "nat \<Rightarrow> bool" where
  "isTrailSurrogate c \<longleftrightarrow> 56320 \<le> c \<and> c \<le> 57343"

text \<open>The body of QuoteJSONString: short escapes, control characters and lone surrogates.\<close>

fun quoteUnits :: "jsstring \<Rightarrow> jsstring" where
  "quoteUnits [] = []"
| "quoteUnits (c # cs) =
     (if c = 8 then [92, 98] @ quoteUnits cs
      else if c = 9 then [92, 116] @ quoteUnits cs
      else if c = 10 then [92, 110] @ quoteUnits cs
      else if c = 12 then [92, 102] @ quoteUnits cs
      else if c = 13 then [92, 114] @ quoteUnits cs
      else if c = 34 then [92, 34] @ quoteUnits cs
      else if c = 92 then [92, 92] @ quoteUnits cs
      else if c < 32 then unicodeEscape c @ quoteUnits cs
      else if isLeadSurrogate c then
        (case cs of
           [] \<Rightarrow> unicodeEscape c
         | d # ds \<Rightarrow>
             if isTrailSurrogate d then c # d # quoteUnits ds
             else unicodeEscape c @ quoteUnits cs)
      else if isTrailSurrogate c then unicodeEscape c @ quoteUnits cs
      else c # quoteUnits cs)"

definition QuoteJSONString :: "jsstring \<Rightarrow> jsstring" where
  "QuoteJSONString s = [34] @ quoteUnits s @ [34]"

text \<open>
  The order in which the own properties of an object are enumerated: array indices in
  ascending numeric order, then the other keys in creation order.
\<close>

definition isArrayIndex :: "jsstring \<Rightarrow> bool" where
  "isArrayIndex k \<longleftrightarrow>
     k \<noteq> [] \<and> list_all isDigit k \<and> (k = [48] \<or> hd k \<noteq> 48) \<and> decimalValue k < 4294967295"

definition ownProperties :: "(jsstring \<times> 'a) list \<Rightarrow> (jsstring \<times> 'a) list" where
  "ownProperties ps =
     sort_key (\<lambda>p. decimalValue (fst p)) (filter (\<lambda>p. isArrayIndex (fst p)) ps)
     @ filter (\<lambda>p. \<not> isArrayIndex (fst p)) ps"

definition wrapParts :: "nat \<Rightarrow> nat \<Rightarrow> jsstring \<Rightarrow> jsstring \<Rightarrow> jsstring list \<Rightarrow> jsstring" where
  "wrapParts opening closing gap stepback parts =
     (if gap = [] then [opening] @ join [44] parts @ [closing]
      else [opening, 10] @ (stepback @ gap) @ join ([44, 10] @ stepback @ gap) parts
           @ [10] @ stepback @ [closing])"

text \<open>
  SerializeJSONProperty on a parsed value, with the gap (empty for the compact form) and
  the current indentation. The text of a number is the ECMAScript Number::toString of its
  double (\<open>null\<close> when the double is not finite); doubles are not embedded, so this
  formatting is the parameter \<open>numberText\<close>.
\<close>

fun SerializeJSONProperty :: "(rat \<Rightarrow> jsstring) \<Rightarrow> jsstring \<Rightarrow> jsstring \<Rightarrow> json \<Rightarrow> jsstring" where
  "SerializeJSONProperty numberText gap indent JNull = str ''null''"
| "SerializeJSONProperty numberText gap indent (JBool b) = (if b then str ''true'' else str ''false'')"
| "SerializeJSONProperty numberText gap indent (JNumber q) = numberText q"
| "SerializeJSONProperty numberText gap indent (JString s) = QuoteJSONString s"
| "SerializeJSONProperty numberText gap indent (JArray vs) =
     (if vs = [] then str ''[]''
      else wrapParts 91 93 gap indent
             (map (SerializeJSONProperty numberText gap (indent @ gap)) vs))"
| "SerializeJSONProperty numberText gap indent (JObject ps) =
     (if ps = [] then str ''{}''
      else wrapParts 123 125 gap indent
             (map (\<lambda>m. QuoteJSONString (fst m) @ [58] @ (if gap = [] then [] else [32]) @ snd m)
                (ownProperties
                   (map (\<lambda>p. (fst p, SerializeJSONProperty numberText gap (indent @ gap) (snd p)))
                      ps))))"

text \<open>\<open>JSON.stringify(v)\<close> and \<open>JSON.stringify(v, null, 2)\<close>.\<close>

definition JSON_stringify :: "(rat \<Rightarrow> jsstring) \<Rightarrow> json \<Rightarrow> jsstring" where
  "JSON_stringify numberText v = SerializeJSONProperty numberText [] [] v"

definition JSON_stringify_indent2 :: "(rat \<Rightarrow> jsstring) \<Rightarrow> json \<Rightarrow> jsstring" where
  "JSON_stringify_indent2 numberText v = SerializeJSONProperty numberText [32, 32] [] v"

section \<open>ToolConverter\<close>

text \<open>
  Modelled from the spec: the declarations of \<open>Tool\<close> and \<open>ToolCall\<close> (the module
  \<open>./types\<close> that the converter imports), after the spec's ToolSpec and ToolCall and
  the fields the code reads and writes. A tool declaration has \<open>tool.function.name\<close>,
  \<open>.description\<close> and \<open>.parameters\<close>, the schema being absent or an arbitrary JSON
  value. A recovered call has an identifier, the type \<open>function\<close>, and
  \<open>function.name\<close> and \<open>function.arguments\<close>; its name is whatever value the parsed
  text holds under \<open>function_call.name\<close>.
\<close>

record tool =
  function_name :: jsstring
  function_description :: jsstring
  function_parameters :: "json option"

record tool_call =
  call_id :: jsstring
  call_type :: jsstring
  call_function_name :: json
  call_function_arguments :: jsstring

text \<open>
  What a run takes from its environment: the identifier built from \<open>Date.now()\<close> and
  \<open>Math.random()\<close> for a recovered call, and the text of numbers in \<open>JSON.stringify\<close>.
\<close>

record env =
  fresh_call_id :: jsstring
  numberText :: "rat \<Rightarrow> jsstring"

definition promptHeader :: jsstring where
  "promptHeader =
     str ''You are a helpful assistant. You can help me by answering my questions. You can also ask me questions.''
     @ [10, 10]
     @ str ''here are list of functions start with <<< end with >>>:'' @ [10]
     @ str ''<<<'' @ [10]"

definition promptFormatLines :: "jsstring list" where
  "promptFormatLines =
     [str ''To use a function, you MUST respond with ONLY a valid JSON object in the following format, with no additional text, markdown formatting, or code blocks:'',
      str ''follow this format:'',
      str ''{'',
      str ''  \"function_call\": {'',
      str ''    \"name\": \"function_name\",'',
      str ''    \"arguments\": {'',
      str ''      \"param1\": \"value1\",'',
      str ''      \"param2\": \"value2\"'',
      str ''    }'',
      str ''  }'',
      str ''}'',
      [],
      str ''IMPORTANT: '',
      str ''- Output ONLY the raw JSON object, only contains function_call, name, arguments, and parameters required, no additional properties.'',
      str ''- Do NOT wrap the JSON in code blocks (no ```)'',
      str ''- Do NOT include any explanatory text before or after the JSON'',
      str ''- Ensure the JSON is valid and properly formatted'',
      str ''- Ensure only JSON is returned, no additional text before or after json.'',
      str ''- After receiving the function result, you can continue the conversation normally'',
      str ''check with user prompt with functions above, if above function can be used solve user question, response with pure json follow function example.'',
      str ''If you don'' @ [39] @ str ''t need to use a function, just respond normally without JSON.'']"

definition toolEntry :: "env \<Rightarrow> tool \<Rightarrow> jsstring" where
  "toolEntry e t =
     str ''Function: '' @ function_name t @ [10]
     @ str ''Description: '' @ function_description t @ [10]
     @ (case function_parameters t of
          None \<Rightarrow> []
        | Some ps \<Rightarrow>
            if truthy ps
            then str ''Parameters: '' @ JSON_stringify_indent2 (numberText e) ps @ [10]
            else [])
     @ [10]"

definition convertToolsToSystemPrompt :: "env \<Rightarrow> tool list option \<Rightarrow> jsstring" where
  "convertToolsToSystemPrompt e tools =
     (case tools of
        None \<Rightarrow> []
      | Some ts \<Rightarrow>
          if length ts = 0 then []
          else promptHeader @ concat (map (toolEntry e) ts)
               @ str ''>>>'' @ [10] @ join [10] promptFormatLines)"

subsection \<open>Candidate selection\<close>

text \<open>
  The brace scan of \<open>extractToolCallFromResponse\<close>: the loop over \<open>i\<close>, with the
  characters from position \<open>i\<close> on as last argument. \<open>startIdx\<close> is \<open>-1\<close> until the
  first opening brace and is not assigned afterwards.
\<close>

fun braceScan :: "jsstring \<Rightarrow> nat \<Rightarrow> int \<Rightarrow> int \<Rightarrow> jsstring \<Rightarrow> jsstring option" where
  "braceScan response i braceCount startIdx [] = None"
| "braceScan response i braceCount startIdx (c # rest) =
     (if c = 123 then
        braceScan response (i + 1) (braceCount + 1) (if startIdx = - 1 then int i else startIdx) rest
      else if c = 125 then
        (if braceCount - 1 = 0 \<and> startIdx \<noteq> - 1
            \<and> includes_text (substring response (nat startIdx) (i + 1)) (str ''function_call'')
         then Some (substring response (nat startIdx) (i + 1))
         else braceScan response (i + 1) (braceCount - 1) startIdx rest)
      else braceScan response (i + 1) braceCount startIdx rest)"

text \<open>
  Regular expressions. \<open>regexSearch m s\<close> is \<open>s.match\<close> for a pattern whose match at a
  given position is \<open>m\<close>: the leftmost position where the pattern matches, with what \<open>m\<close>
  returns there. \<open>lazyUntil p s\<close> is the lazy \<open>[\s\S]*?\<close> followed by the literal
  \<open>p\<close>: the shortest text before an occurrence of \<open>p\<close>, and what follows that occurrence.
  In the patterns below a greedy \<open>\s*\<close> is followed by a non-space literal or by
  \<open>[\s\S]*?\<close> and a fence, so giving white space back never turns a failure into a
  match, and a later occurrence of a literal leaves no more room for what must follow it:
  the first attempt decides.
\<close>

fun regexSearch :: "(jsstring \<Rightarrow> 'a option) \<Rightarrow> jsstring \<Rightarrow> (nat \<times> 'a) option" where
  "regexSearch m [] = map_option (\<lambda>r. (0, r)) (m [])"
| "regexSearch m (c # cs) =
     (case m (c # cs) of
        Some r \<Rightarrow> Some (0, r)
      | None \<Rightarrow> map_option (\<lambda>(i, r). (Suc i, r)) (regexSearch m cs))"

fun lazyUntil :: "jsstring \<Rightarrow> jsstring \<Rightarrow> (jsstring \<times> jsstring) option" where
  "lazyUntil p [] = (if p = [] then Some ([], []) else None)"
| "lazyUntil p (c # cs) =
     (if startsWith (c # cs) p then Some ([], drop (length p) (c # cs))
      else map_option (\<lambda>(t, r). (c # t, r)) (lazyUntil p cs))"

definition fence :: jsstring where
  "fence = [96, 96, 96]"

definition startsWithJsonIgnoreCase :: "jsstring \<Rightarrow> bool" where
  "startsWithJsonIgnoreCase s \<longleftrightarrow>
     4 \<le> length s \<and> (s ! 0 = 106 \<or> s ! 0 = 74) \<and> (s ! 1 = 115 \<or> s ! 1 = 83)
     \<and> (s ! 2 = 111 \<or> s ! 2 = 79) \<and> (s ! 3 = 110 \<or> s ! 3 = 78)"

text \<open>The pattern with a \<open>json\<close> tag, case-insensitive; the result is group 1.\<close>

definition matchJsonBlock :: "jsstring \<Rightarrow> jsstring option" where
  "matchJsonBlock s =
     (if startsWith s fence \<and> startsWithJsonIgnoreCase (dropWhile isWhiteSpace (drop 3 s))
      then map_option fst
             (lazyUntil fence
                (dropWhile isWhiteSpace (drop 4 (dropWhile isWhiteSpace (drop 3 s)))))
      else None)"

text \<open>The pattern without a tag; the result is group 1.\<close>

definition matchBlock :: "jsstring \<Rightarrow> jsstring option" where
  "matchBlock s =
     (if startsWith s fence
      then map_option fst (lazyUntil fence (dropWhile isWhiteSpace (drop 3 s)))
      else None)"

text \<open>The loop over \<open>codeBlockPatterns\<close>: the first pattern that matches decides.\<close>

definition codeBlockContent :: "jsstring \<Rightarrow> jsstring option" where
  "codeBlockContent response =
     (case regexSearch matchJsonBlock response of
        Some (i, g) \<Rightarrow> Some (trim g)
      | None \<Rightarrow>
          (case regexSearch matchBlock response of
             Some (i, g) \<Rightarrow> Some (trim g)
           | None \<Rightarrow> None))"

text \<open>\<open>!jsonContent\<close>: null or the empty text.\<close>

definition noContent :: "jsstring option \<Rightarrow> bool" where
  "noContent jsonContent \<longleftrightarrow> jsonContent = None \<or> jsonContent = Some []"

definition selectCandidate :: "jsstring \<Rightarrow> jsstring option" where
  "selectCandidate response =
     (let trimmedResponse = trim response;
          jsonContent =
            (if startsWith trimmedResponse (str ''{'') \<and> endsWith trimmedResponse (str ''}'')
             then Some trimmedResponse
             else braceScan response 0 0 (- 1) response)
      in if noContent jsonContent then codeBlockContent response else jsonContent)"

subsection \<open>Validation\<close>

text \<open>
  The body of the \<open>try\<close> block: \<open>Inl\<close> is an exception thrown inside it, \<open>Inr None\<close>
  is leaving the \<open>if\<close> without a result.
\<close>

definition tryToolCall :: "env \<Rightarrow> jsstring \<Rightarrow> error + tool_call option" where
  "tryToolCall e jsonContent =
     (case JSON_parse jsonContent of
        Inl x \<Rightarrow> Inl x
      | Inr parsed \<Rightarrow>
          (case getProp parsed (str ''function_call'') of
             Inl x \<Rightarrow> Inl x
           | Inr None \<Rightarrow> Inr None
           | Inr (Some fc) \<Rightarrow>
               if \<not> truthy fc then Inr None
               else
                 (case getProp fc (str ''name'') of
                    Inl x \<Rightarrow> Inl x
                  | Inr None \<Rightarrow> Inr None
                  | Inr (Some nm) \<Rightarrow>
                      if \<not> truthy nm then Inr None
                      else
                        (case getProp fc (str ''arguments'') of
                           Inl x \<Rightarrow> Inl x
                         | Inr args \<Rightarrow>
                             Inr (Some \<lparr>call_id = fresh_call_id e,
                                        call_type = str ''function'',
                                        call_function_name = nm,
                                        call_function_arguments =
                                          JSON_stringify (numberText e)
                                            (case args of
                                               None \<Rightarrow> JObject []
                                             | Some a \<Rightarrow> if truthy a then a else JObject [])\<rparr>)))))"

text \<open>The \<open>try\<close> with its \<open>catch\<close>, which logs and falls through to \<open>return null\<close>.\<close>

definition validateCandidate :: "env \<Rightarrow> jsstring \<Rightarrow> error + tool_call option" where
  "validateCandidate e jsonContent =
     (case tryToolCall e jsonContent of
        Inl x \<Rightarrow> Inr None
      | Inr r \<Rightarrow> Inr r)"

definition extractToolCallFromResponse :: "env \<Rightarrow> jsstring \<Rightarrow> error + tool_call option" where
  "extractToolCallFromResponse e response =
     (if trim response = str ''I need to call a function.''
         \<or> trim response = str ''I need to call a function''
      then Inr None
      else
        (case selectCandidate response of
           None \<Rightarrow> Inr None
         | Some jsonContent \<Rightarrow>
             if jsonContent = [] then Inr None else validateCandidate e jsonContent))"

subsection \<open>Text before the call\<close>

definition matchAnyBlock :: "jsstring \<Rightarrow> unit option" where
  "matchAnyBlock s =
     (if startsWith s fence then map_option (\<lambda>r. ()) (lazyUntil fence (drop 3 s)) else None)"

definition matchRawJson :: "jsstring \<Rightarrow> unit option" where
  "matchRawJson s =
     (if startsWith s (str ''{'')
      then (case lazyUntil (str ''\"function_call\"'') (drop 1 s) of
              None \<Rightarrow> None
            | Some (t, r) \<Rightarrow> map_option (\<lambda>r. ()) (lazyUntil (str ''}'') r))
      else None)"

definition extractTextBeforeToolCall :: "jsstring \<Rightarrow> jsstring" where
  "extractTextBeforeToolCall response =
     (case regexSearch matchAnyBlock response of
        Some (i, u) \<Rightarrow> trim (substring response 0 i)
      | None \<Rightarrow>
          (case regexSearch matchRawJson response of
             Some (i, u) \<Rightarrow> trim (substring response 0 i)
           | None \<Rightarrow> response))"

section \<open>ProxyHandler\<close>

datatype role = System | User | Assistant | Tool

text \<open>
  Modelled from the spec: the declaration of \<open>Message\<close> (module \<open>./types\<close>), after
  the spec's Message and the fields the code reads. Of the tool calls an assistant
  message carries, only the function names are read by this program, so \<open>tool_calls\<close>
  holds those names (\<open>None\<close> when the field is absent or null).
\<close>

record message =
  role :: role
  content :: "jsstring option"
  tool_calls :: "jsstring list option"
  tool_call_id :: "jsstring option"
  name :: "jsstring option"

text \<open>
  Modelled from the spec: the declaration of \<open>ChatCompletionRequest\<close> (module
  \<open>./types\<close>), reduced to the fields that decide the control flow. The model name,
  temperature and token limit are only copied into payloads and responses and are left
  out.
\<close>

record chat_request =
  messages :: "message list"
  tools :: "tool list option"

record proxy_config =
  targetApiUrl :: jsstring
  targetModel :: jsstring
  apiKey :: "jsstring option"
  maxRounds :: "int option"

text \<open>
  The constructor's \<open>config.maxRounds || 10\<close>, for a setting that is absent or an
  integer.
\<close>

definition configuredMaxRounds :: "proxy_config \<Rightarrow> int" where
  "configuredMaxRounds config =
     (case maxRounds config of None \<Rightarrow> 10 | Some n \<Rightarrow> if n = 0 then 10 else n)"

text \<open>\<open>s || ''\<close> for a text that may be null.\<close>

definition orEmpty :: "jsstring option \<Rightarrow> jsstring" where
  "orEmpty s = (case s of None \<Rightarrow> [] | Some t \<Rightarrow> t)"

definition plainMessage :: "role \<Rightarrow> jsstring \<Rightarrow> message" where
  "plainMessage r t =
     \<lparr>role = r, content = Some t, tool_calls = None, tool_call_id = None, name = None\<rparr>"

definition convertToolMessageToUserMessage :: "message \<Rightarrow> message" where
  "convertToolMessageToUserMessage toolMessage =
     plainMessage User
       (str ''Function \"'' @ (if orEmpty (name toolMessage) = [] then str ''tool''
                                else orEmpty (name toolMessage))
        @ str ''\" returned: '' @ orEmpty (content toolMessage))"

text \<open>
  One step of the \<open>map\<close> in \<open>prepareMessagesForTarget\<close>. A message with an empty
  \<open>tool_calls\<close> array and no content reads \<open>tool_calls[0].function\<close> of
  \<open>undefined\<close>, which throws.
\<close>

definition prepareMessage :: "message \<Rightarrow> error + message" where
  "prepareMessage msg =
     (if role msg = Tool then Inr (convertToolMessageToUserMessage msg)
      else
        (case tool_calls msg of
           Some calls \<Rightarrow>
             if orEmpty (content msg) \<noteq> [] then Inr (plainMessage (role msg) (orEmpty (content msg)))
             else
               (case calls of
                  [] \<Rightarrow> Inl TypeError
                | f # fs \<Rightarrow> Inr (plainMessage (role msg) (str ''Calling function: '' @ f)))
         | None \<Rightarrow> Inr (plainMessage (role msg) (orEmpty (content msg)))))"

fun prepareMessagesForTarget :: "message list \<Rightarrow> error + message list" where
  "prepareMessagesForTarget [] = Inr []"
| "prepareMessagesForTarget (m # ms) =
     (case prepareMessage m of
        Inl x \<Rightarrow> Inl x
      | Inr m' \<Rightarrow>
          (case prepareMessagesForTarget ms of
             Inl x \<Rightarrow> Inl x
           | Inr ms' \<Rightarrow> Inr (m' # ms')))"

text \<open>
  \<open>injectToolSystemPrompt\<close>. When a system message exists, the first one is updated in
  place: the object is shared with the caller's \<open>request.messages\<close>, whose copy
  \<open>[...request.messages]\<close> is shallow. Otherwise a new list with a new first message is
  returned and the caller's list is untouched.
\<close>

fun updateFirstSystem :: "jsstring \<Rightarrow> message list \<Rightarrow> message list" where
  "updateFirstSystem toolPrompt [] = []"
| "updateFirstSystem toolPrompt (m # ms) =
     (if role m = System
      then m\<lparr>content := Some (orEmpty (content m) @ [10, 10] @ toolPrompt)\<rparr> # ms
      else m # updateFirstSystem toolPrompt ms)"

definition injectToolSystemPrompt :: "message list \<Rightarrow> jsstring \<Rightarrow> message list" where
  "injectToolSystemPrompt msgs toolPrompt =
     (if list_ex (\<lambda>m. role m = System) msgs then updateFirstSystem toolPrompt msgs
      else plainMessage System toolPrompt # msgs)"

definition callerMessagesAfterInject :: "message list \<Rightarrow> jsstring \<Rightarrow> message list" where
  "callerMessagesAfterInject msgs toolPrompt =
     (if list_ex (\<lambda>m. role m = System) msgs then updateFirstSystem toolPrompt msgs else msgs)"

subsection \<open>Responses and stream chunks\<close>

text \<open>
  Modelled from the spec: the declarations of \<open>ChatCompletionResponse\<close> and
  \<open>StreamChunk\<close> (module \<open>./types\<close>), after the objects the handler builds. Of a
  response and of a stream chunk, the parts that depend on the round are kept: the
  message or delta and the finish reason. Identifier, timestamp, model and usage are
  left out.
\<close>

record chat_response =
  response_content :: "jsstring option"
  response_tool_calls :: "tool_call list option"
  response_finish_reason :: jsstring

definition createCompletionResponse :: "jsstring \<Rightarrow> chat_response" where
  "createCompletionResponse text =
     \<lparr>response_content = Some text, response_tool_calls = None,
      response_finish_reason = str ''stop''\<rparr>"

definition createToolCallResponse :: "tool_call \<Rightarrow> jsstring \<Rightarrow> chat_response" where
  "createToolCallResponse toolCall textBefore =
     \<lparr>response_content = (if textBefore = [] then None else Some textBefore),
      response_tool_calls = Some [toolCall],
      response_finish_reason = str ''tool_calls''\<rparr>"

record stream_chunk =
  delta_content :: "jsstring option"
  delta_tool_calls :: "tool_call list option"
  finish_reason :: "jsstring option"

definition createStreamChunk :: "jsstring \<Rightarrow> jsstring option \<Rightarrow> stream_chunk" where
  "createStreamChunk text finishReason =
     \<lparr>delta_content = (if text = [] then None else Some text), delta_tool_calls = None,
      finish_reason = finishReason\<rparr>"

definition createToolCallStreamChunk :: "tool_call \<Rightarrow> stream_chunk" where
  "createToolCallStreamChunk toolCall =
     \<lparr>delta_content = None, delta_tool_calls = Some [toolCall], finish_reason = None\<rparr>"

text \<open>The three kinds of emission, and the text a list of emissions carries.\<close>

definition Content :: "jsstring \<Rightarrow> stream_chunk" where
  "Content text = createStreamChunk text None"

definition ToolCallEvent :: "tool_call \<Rightarrow> stream_chunk" where
  "ToolCallEvent toolCall = createToolCallStreamChunk toolCall"

definition End :: "jsstring \<Rightarrow> stream_chunk" where
  "End reason = createStreamChunk [] (Some reason)"

definition contentText :: "stream_chunk list \<Rightarrow> jsstring" where
  "contentText evs = concat (map (\<lambda>ev. orEmpty (delta_content ev)) evs)"

subsection \<open>Runs\<close>

text \<open>
  What a handler did besides producing its outcome: the collaborators it invoked, in
  order; the caller's \<open>request.messages\<close> afterwards; and the last value of the local
  variable \<open>round\<close>.
\<close>

datatype action =
    CompiledPrompt "tool list"
  | CalledBackend "message list"
  | RanExtractor jsstring

record 'a run =
  outcome :: 'a
  trace :: "action list"
  request_messages :: "message list"
  round_counter :: int

text \<open>
  The statements before the loop, common to both handlers: the working message list, the
  caller's list afterwards, and whether the prompt compiler ran.
\<close>

definition hasToolResponse :: "chat_request \<Rightarrow> bool" where
  "hasToolResponse request = list_ex (\<lambda>m. role m = Tool) (messages request)"

definition requestTools :: "chat_request \<Rightarrow> tool list" where
  "requestTools request = (case tools request of None \<Rightarrow> [] | Some ts \<Rightarrow> ts)"

definition shouldInjectTools :: "chat_request \<Rightarrow> bool" where
  "shouldInjectTools request \<longleftrightarrow> 0 < length (requestTools request) \<and> \<not> hasToolResponse request"

definition workingMessages :: "env \<Rightarrow> chat_request \<Rightarrow> message list" where
  "workingMessages e request =
     (if shouldInjectTools request
      then injectToolSystemPrompt (messages request)
             (convertToolsToSystemPrompt e (Some (requestTools request)))
      else messages request)"

definition callerMessages :: "env \<Rightarrow> chat_request \<Rightarrow> message list" where
  "callerMessages e request =
     (if shouldInjectTools request
      then callerMessagesAfterInject (messages request)
             (convertToolsToSystemPrompt e (Some (requestTools request)))
      else messages request)"

definition initTrace :: "chat_request \<Rightarrow> action list" where
  "initTrace request =
     (if shouldInjectTools request then [CompiledPrompt (requestTools request)] else [])"

subsection \<open>handleRequest\<close>

text \<open>
  The backend call is the parameter \<open>callTargetLLM\<close>: from the payload to the reply
  text, or to the message of the error it throws. \<open>round\<close> is initialised to 0 and no
  statement assigns it; every path through the loop body ends in \<open>return\<close> or in a
  thrown error, so the body runs when the guard holds at entry and the statement after
  the loop runs otherwise.
\<close>

definition answerRound :: "env \<Rightarrow> bool \<Rightarrow> jsstring \<Rightarrow> (error + chat_response) \<times> action list" where
  "answerRound e toolResponse response =
     (if \<not> toolResponse then
        (case extractToolCallFromResponse e response of
           Inl x \<Rightarrow> (Inl x, [RanExtractor response])
         | Inr (Some toolCall) \<Rightarrow>
             (Inr (createToolCallResponse toolCall
                     (if extractTextBeforeToolCall response \<noteq> []
                         \<and> trim (extractTextBeforeToolCall response) \<noteq> []
                      then extractTextBeforeToolCall response else [])),
              [RanExtractor response])
         | Inr None \<Rightarrow> (Inr (createCompletionResponse response), [RanExtractor response]))
      else (Inr (createCompletionResponse response), []))"

definition handleRequest ::
  "proxy_config \<Rightarrow> env \<Rightarrow> (message list \<Rightarrow> jsstring + jsstring) \<Rightarrow> chat_request
     \<Rightarrow> (error + chat_response) run" where
  "handleRequest config e callTargetLLM request =
     (if 0 < configuredMaxRounds config then
        (case prepareMessagesForTarget (workingMessages e request) of
           Inl x \<Rightarrow>
             \<lparr>outcome = Inl x, trace = initTrace request,
              request_messages = callerMessages e request, round_counter = 0\<rparr>
         | Inr targetMessages \<Rightarrow>
             (case callTargetLLM targetMessages of
                Inl failure \<Rightarrow>
                  \<lparr>outcome = Inl (BackendFailure failure),
                   trace = initTrace request @ [CalledBackend targetMessages],
                   request_messages = callerMessages e request, round_counter = 0\<rparr>
              | Inr response \<Rightarrow>
                  \<lparr>outcome = fst (answerRound e (hasToolResponse request) response),
                   trace = initTrace request @ [CalledBackend targetMessages]
                           @ snd (answerRound e (hasToolResponse request) response),
                   request_messages = callerMessages e request, round_counter = 0\<rparr>))
      else
        \<lparr>outcome = Inl (RoundLimitExceeded (configuredMaxRounds config)),
         trace = initTrace request,
         request_messages = callerMessages e request, round_counter = 0\<rparr>)"

subsection \<open>handleStreamingRequest\<close>

record stream_state =
  fullResponse :: jsstring
  toolCallDetected :: bool
  bufferedChunks :: "jsstring list"

definition initialStreamState :: stream_state where
  "initialStreamState = \<lparr>fullResponse = [], toolCallDetected = False, bufferedChunks = []\<rparr>"

definition looksLikeToolCall :: "jsstring \<Rightarrow> bool" where
  "looksLikeToolCall text \<longleftrightarrow>
     startsWith (trim text) (str ''{'') \<or> startsWith (trim text) (10 # str ''{'')
     \<or> includes_text (trim text) (str ''\"function_call\"'')"

text \<open>The body of the \<open>for await\<close> loop: the next state and what is yielded.\<close>

definition onChunk :: "bool \<Rightarrow> stream_state \<Rightarrow> jsstring \<Rightarrow> stream_state \<times> stream_chunk list" where
  "onChunk toolResponse st chunk =
     (if \<not> toolResponse then
        (if looksLikeToolCall (fullResponse st @ chunk) \<and> \<not> toolCallDetected st then
           (st\<lparr>fullResponse := fullResponse st @ chunk, toolCallDetected := True,
               bufferedChunks := bufferedChunks st @ [chunk]\<rparr>, [])
         else if toolCallDetected st then
           (st\<lparr>fullResponse := fullResponse st @ chunk,
               bufferedChunks := bufferedChunks st @ [chunk]\<rparr>, [])
         else
           (st\<lparr>fullResponse := fullResponse st @ chunk\<rparr>, [createStreamChunk chunk None]))
      else (st\<lparr>fullResponse := fullResponse st @ chunk\<rparr>, [createStreamChunk chunk None]))"

fun consume :: "bool \<Rightarrow> stream_state \<Rightarrow> jsstring list \<Rightarrow> stream_state \<times> stream_chunk list" where
  "consume toolResponse st [] = (st, [])"
| "consume toolResponse st (chunk # rest) =
     (case onChunk toolResponse st chunk of
        (st', out) \<Rightarrow>
          (case consume toolResponse st' rest of
             (st'', outs) \<Rightarrow> (st'', out @ outs)))"

text \<open>
  The statements after the \<open>for await\<close> loop: what is yielded, the exception that ends
  the generator if any, and whether the extractor ran.
\<close>

definition onEnd ::
  "env \<Rightarrow> bool \<Rightarrow> stream_state \<Rightarrow> stream_chunk list \<times> error option \<times> action list" where
  "onEnd e toolResponse st =
     (if \<not> toolResponse then
        (case extractToolCallFromResponse e (fullResponse st) of
           Inl x \<Rightarrow> ([], Some x, [RanExtractor (fullResponse st)])
         | Inr (Some toolCall) \<Rightarrow>
             ((if extractTextBeforeToolCall (fullResponse st) \<noteq> []
                  \<and> trim (extractTextBeforeToolCall (fullResponse st)) \<noteq> []
               then [createStreamChunk (extractTextBeforeToolCall (fullResponse st)) None]
               else [])
              @ [createToolCallStreamChunk toolCall,
                 createStreamChunk [] (Some (str ''tool_calls''))],
              None, [RanExtractor (fullResponse st)])
         | Inr None \<Rightarrow>
             ((if toolCallDetected st \<and> 0 < length (bufferedChunks st)
               then map (\<lambda>bufferedChunk. createStreamChunk bufferedChunk None) (bufferedChunks st)
               else [])
              @ [createStreamChunk [] (Some (str ''stop''))],
              None, [RanExtractor (fullResponse st)]))
      else ([createStreamChunk [] (Some (str ''stop''))], None, []))"

text \<open>
  The backend stream is the parameter \<open>streamTargetLLM\<close>: from the payload to the
  deltas it delivers and, when the stream breaks after them, the message of the error.
  The outcome is the list of yielded chunks and the exception that ended the generator,
  if any.
\<close>

definition handleStreamingRequest ::
  "proxy_config \<Rightarrow> env \<Rightarrow> (message list \<Rightarrow> jsstring list \<times> jsstring option) \<Rightarrow> chat_request
     \<Rightarrow> (stream_chunk list \<times> error option) run" where
  "handleStreamingRequest config e streamTargetLLM request =
     (if 0 < configuredMaxRounds config then
        (case prepareMessagesForTarget (workingMessages e request) of
           Inl x \<Rightarrow>
             \<lparr>outcome = ([], Some x), trace = initTrace request,
              request_messages = callerMessages e request, round_counter = 0\<rparr>
         | Inr targetMessages \<Rightarrow>
             (case streamTargetLLM targetMessages of
                (chunks, failure) \<Rightarrow>
                  (case consume (hasToolResponse request) initialStreamState chunks of
                     (st, yielded) \<Rightarrow>
                       (case failure of
                          Some text \<Rightarrow>
                            \<lparr>outcome = (yielded, Some (BackendFailure text)),
                             trace = initTrace request @ [CalledBackend targetMessages],
                             request_messages = callerMessages e request, round_counter = 0\<rparr>
                        | None \<Rightarrow>
                            (case onEnd e (hasToolResponse request) st of
                               (final, thrown, acts) \<Rightarrow>
                                 \<lparr>outcome = (yielded @ final, thrown),
                                  trace = initTrace request @ [CalledBackend targetMessages] @ acts,
                                  request_messages = callerMessages e request, round_counter = 0\<rparr>)))))
      else
        \<lparr>outcome = ([], Some (RoundLimitExceeded (configuredMaxRounds config))),
         trace = initTrace request,
         request_messages = callerMessages e request, round_counter = 0\<rparr>)"

section \<open>Notions used in the statements\<close>


fun isBackendCall :: "action \<Rightarrow> bool" where
  "isBackendCall (CalledBackend payload) = True"
| "isBackendCall a = False"

fun isPromptCompilation :: "action \<Rightarrow> bool" where
  "isPromptCompilation (CompiledPrompt ts) = True"
| "isPromptCompilation a = False"

fun isExtraction :: "action \<Rightarrow> bool" where
  "isExtraction (RanExtractor text) = True"
| "isExtraction a = False"

section \<open>Sample inputs\<close>

definition env0 :: env where
  "env0 = \<lparr>fresh_call_id = str ''call_0_a'', numberText = (\<lambda>q. str ''0'')\<rparr>"

definition config0 :: proxy_config where
  "config0 = \<lparr>targetApiUrl = str ''http://localhost/v1/chat/completions'',
              targetModel = str ''m'', apiKey = None, maxRounds = None\<rparr>"

definition userRequest :: chat_request where
  "userRequest = \<lparr>messages = [plainMessage User (str ''hi'')], tools = None\<rparr>"

definition weatherTool :: tool where
  "weatherTool =
     \<lparr>function_name = str ''get_weather'', function_description = str ''Weather of a city'',
      function_parameters = Some (JObject [(str ''type'', JString (str ''object''))])\<rparr>"

definition toolResultRequest :: chat_request where
  "toolResultRequest =
     \<lparr>messages =
        [plainMessage User (str ''hi''),
         \<lparr>role = Tool, content = Some (str ''sunny''), tool_calls = None,
          tool_call_id = Some (str ''call_0_a''), name = Some (str ''get_weather'')\<rparr>],
      tools = Some [weatherTool]\<rparr>"

definition replyWith :: "jsstring \<Rightarrow> message list \<Rightarrow> jsstring + jsstring" where
  "replyWith text payload = Inr text"

definition streamOf :: "jsstring list \<Rightarrow> message list \<Rightarrow> jsstring list \<times> jsstring option" where
  "streamOf chunks payload = (chunks, None)"

definition callX :: jsstring where
  "callX = str ''{\"function_call\":{\"name\":\"x\"}}''"

definition toolCallX :: tool_call where
  "toolCallX =
     \<lparr>call_id = str ''call_0_a'', call_type = str ''function'',
      call_function_name = JString (str ''x''), call_function_arguments = str ''{}''\<rparr>"

definition emptyToolsRequest :: chat_request where
  "emptyToolsRequest =
     \<lparr>messages = [plainMessage System (str ''be brief''), plainMessage User (str ''hi'')],
      tools = Some []\<rparr>"

definition negativeConfig :: proxy_config where
  "negativeConfig = config0\<lparr>maxRounds := Some (- 1)\<rparr>"

section \<open>The parser's bound is never reached\<close>

lemma length_skip_ws: "length (skip_ws s) \<le> length s"
  by (simp add: skip_ws_def length_dropWhile_le)

lemma skip_ws_Cons_length: "skip_ws s = d # r \<Longrightarrow> length r < length s"
  using length_skip_ws [of s] by simp

lemma drop1_skip_ws: "length (drop 1 (skip_ws r)) \<le> length r"
  using length_skip_ws [of r] by simp

lemma startsWith_single: "startsWith s [c] \<longleftrightarrow> (\<exists>r. s = c # r)"
  by (cases s) (auto simp: startsWith_def)

lemma json_string_shorter: "json_string s = Some (t, r) \<Longrightarrow> length r < length s"
proof (induction s arbitrary: t r rule: json_string.induct)
  case 1
  then show ?case by simp
next
  case (2 c cs)
  show ?case
  proof (cases "c = 34")
    case True
    with "2.prems" show ?thesis by simp
  next
    case c34: False
    show ?thesis
    proof (cases "c = 92")
      case True
      show ?thesis
      proof (cases cs)
        case Nil
        with "2.prems" c34 True show ?thesis by simp
      next
        case (Cons e q)
        show ?thesis
        proof (cases "e = 117")
          case u: True
          with "2.prems" c34 True Cons obtain t' where
            h: "4 \<le> length q" "list_all isHexDigit (take 4 q)"
               "json_string (drop 4 q) = Some (t', r)"
            by (auto split: if_splits)
          from "2.IH"(1) [OF c34 True Cons u _ h(3)] h(1,2)
          have "length r < length (drop 4 q)" by simp
          then show ?thesis using Cons by simp
        next
          case nu: False
          with "2.prems" c34 True Cons obtain x t' where
            h: "json_escape e = Some x" "json_string q = Some (t', r)"
            by (auto split: option.splits)
          from "2.IH"(2) [OF c34 True Cons nu h(1) h(2)]
          show ?thesis using Cons by simp
        qed
      qed
    next
      case c92: False
      with "2.prems" c34 obtain t' where h: "\<not> c < 32" "json_string cs = Some (t', r)"
        by (auto split: if_splits)
      from "2.IH"(3) [OF c34 c92 h(1) h(2)] show ?thesis by simp
    qed
  qed
qed

lemma json_int_shorter: "json_int s = Some (ds, r) \<Longrightarrow> length r < length s"
proof -
  assume a: "json_int s = Some (ds, r)"
  show ?thesis
  proof (cases "startsWith s [48]")
    case True
    with a show ?thesis by (auto simp: json_int_def startsWith_single)
  next
    case False
    with a have t: "takeWhile isDigit s \<noteq> []" and r: "r = dropWhile isDigit s"
      by (auto simp: json_int_def split: if_splits)
    have "length (takeWhile isDigit s) + length (dropWhile isDigit s) = length s"
      by (metis length_append takeWhile_dropWhile_id)
    with t r show ?thesis by (cases "takeWhile isDigit s") auto
  qed
qed

lemma json_frac_shorter: "json_frac s = Some (ds, r) \<Longrightarrow> length r \<le> length s"
  by (auto simp: json_frac_def split: if_splits
      intro: order_trans [OF length_dropWhile_le])

lemma json_exp_shorter: "json_exp s = Some (ex, r) \<Longrightarrow> length r \<le> length s"
  by (auto simp: json_exp_def Let_def split: if_splits
      intro: order_trans [OF length_dropWhile_le])

lemma json_number_shorter: "json_number s = Some (q, r) \<Longrightarrow> length r < length s"
proof -
  assume a: "json_number s = Some (q, r)"
  then obtain ip s2 fp s3 ex where
    h: "json_int (if startsWith s [45] then drop 1 s else s) = Some (ip, s2)"
       "json_frac s2 = Some (fp, s3)" "json_exp s3 = Some (ex, r)"
    by (auto simp: json_number_def split: option.splits)
  have "length s2 < length (if startsWith s [45] then drop 1 s else s)"
    by (rule json_int_shorter [OF h(1)])
  then have "length s2 < length s" by (simp split: if_splits)
  with json_frac_shorter [OF h(2)] json_exp_shorter [OF h(3)] show ?thesis by simp
qed

text \<open>Every parser function consumes at least one character when it succeeds.\<close>

lemma json_shorter:
  "json_value n s = Parsed v r \<Longrightarrow> length r < length s"
  "json_elements n s acc = Parsed v r \<Longrightarrow> length r < length s"
  "json_members n s macc = Parsed v r \<Longrightarrow> length r < length s"
proof (induction n s and n s acc and n s macc arbitrary: v r and v r and v r
    rule: json_value_json_elements_json_members.induct)
  case (1 s)
  then show ?case by simp
next
  case (2 n s)
  from "2.prems" obtain c q where s: "s = c # q" by (cases s) auto
  consider (obj) "c = 123" | (arr) "c \<noteq> 123" "c = 91" | (strg) "c \<noteq> 123" "c \<noteq> 91" "c = 34"
    | (other) "c \<noteq> 123" "c \<noteq> 91" "c \<noteq> 34" by blast
  then show ?case
  proof cases
    case obj
    show ?thesis
    proof (cases "startsWith (skip_ws q) [125]")
      case True
      with "2.prems" s obj have "r = drop 1 (skip_ws q)" by simp
      then show ?thesis using s drop1_skip_ws [of q] by simp
    next
      case False
      with "2.prems" s obj have "json_members n (skip_ws q) [] = Parsed v r" by simp
      from "2.IH"(1) [OF s obj False this] length_skip_ws [of q] s show ?thesis by simp
    qed
  next
    case arr
    show ?thesis
    proof (cases "startsWith (skip_ws q) [93]")
      case True
      with "2.prems" s arr have "r = drop 1 (skip_ws q)" by simp
      then show ?thesis using s drop1_skip_ws [of q] by simp
    next
      case False
      with "2.prems" s arr have "json_elements n (skip_ws q) [] = Parsed v r" by simp
      from "2.IH"(2) [OF s arr False this] length_skip_ws [of q] s show ?thesis by simp
    qed
  next
    case strg
    with "2.prems" s obtain t where "json_string q = Some (t, r)"
      by (auto split: option.splits)
    from json_string_shorter [OF this] s show ?thesis by simp
  next
    case other
    with "2.prems" s have
      "r = drop 4 s \<or> r = drop 5 s \<or> (\<exists>x. json_number s = Some (x, r))"
      by (auto split: if_splits option.splits)
    then show ?thesis using s by (auto dest: json_number_shorter)
  qed
next
  case (3 s acc)
  then show ?case by simp
next
  case (4 n s acc)
  from "4.prems" obtain w r1 where w: "json_value n s = Parsed w r1"
    by (auto split: parse.splits)
  from "4.IH"(1) [OF w] have l1: "length r1 < length s" .
  from "4.prems" w obtain d r2 where d: "skip_ws r1 = d # r2"
    by (auto split: list.splits)
  from skip_ws_Cons_length [OF d] have l2: "length r2 < length r1" .
  show ?case
  proof (cases "d = 44")
    case True
    with "4.prems" w d have "json_elements n (skip_ws r2) (acc @ [w]) = Parsed v r" by simp
    from "4.IH"(2) [OF w d True this] length_skip_ws [of r2] l1 l2 show ?thesis by simp
  next
    case False
    with "4.prems" w d have "r = r2" by (auto split: if_splits)
    with l1 l2 show ?thesis by simp
  qed
next
  case (5 s macc)
  then show ?case by simp
next
  case (6 n s macc)
  from "6.prems" obtain c q where s: "s = c # q" by (cases s) auto
  from "6.prems" s have c: "\<not> c \<noteq> 34" by (auto split: if_splits)
  from "6.prems" s c obtain k r1 where k: "json_string q = Some (k, r1)"
    by (auto split: option.splits)
  from "6.prems" s c k obtain d r2 where d: "skip_ws r1 = d # r2"
    by (auto split: list.splits)
  from "6.prems" s c k d have d58: "\<not> d \<noteq> 58" by (auto split: if_splits)
  from "6.prems" s c k d d58 obtain w r3 where w: "json_value n (skip_ws r2) = Parsed w r3"
    by (auto split: parse.splits)
  from "6.prems" s c k d d58 w obtain e r4 where e: "skip_ws r3 = e # r4"
    by (auto split: list.splits)
  have l: "length r1 < length q" "length r2 < length r1" "length r3 < length (skip_ws r2)"
    "length r4 < length r3"
    using json_string_shorter [OF k] skip_ws_Cons_length [OF d]
      "6.IH"(1) [OF s c _ _ d d58 w, of "(k, r1)" k] k skip_ws_Cons_length [OF e]
    by auto
  show ?case
  proof (cases "e = 44")
    case True
    with "6.prems" s c k d d58 w e
    have m: "json_members n (skip_ws r4) (obj_put k w macc) = Parsed v r" by simp
    from "6.IH"(2) [OF s c _ _ d d58 w e True m, of "(k, r1)"] k
    have "length r < length (skip_ws r4)" by simp
    with l length_skip_ws [of r4] length_skip_ws [of r2] s show ?thesis by simp
  next
    case False
    with "6.prems" s c k d d58 w e have "r = r4" by (auto split: if_splits)
    with l length_skip_ws [of r2] s show ?thesis by simp
  qed
qed

text \<open>With the bound \<open>JSON_parse\<close> supplies, no parser function runs out of it.\<close>

lemma json_fuel:
  "2 * length s < n \<Longrightarrow> json_value n s \<noteq> Starved"
  "2 * length s + 1 < n \<Longrightarrow> json_elements n s acc \<noteq> Starved"
  "2 * length s + 1 < n \<Longrightarrow> json_members n s macc \<noteq> Starved"
proof (induction n s and n s acc and n s macc
    rule: json_value_json_elements_json_members.induct)
  case (1 s)
  then show ?case by simp
next
  case (2 n s)
  show ?case
  proof (cases s)
    case Nil
    then show ?thesis by simp
  next
    case (Cons c q)
    consider (obj) "c = 123" | (arr) "c \<noteq> 123" "c = 91" | (other) "c \<noteq> 123" "c \<noteq> 91"
      by blast
    then show ?thesis
    proof cases
      case obj
      show ?thesis
      proof (cases "startsWith (skip_ws q) [125]")
        case True
        with Cons obj show ?thesis by simp
      next
        case False
        have "2 * length (skip_ws q) + 1 < n"
          using "2.prems" Cons length_skip_ws [of q] by simp
        from "2.IH"(1) [OF Cons obj False this] Cons obj False show ?thesis by simp
      qed
    next
      case arr
      show ?thesis
      proof (cases "startsWith (skip_ws q) [93]")
        case True
        with Cons arr show ?thesis by simp
      next
        case False
        have "2 * length (skip_ws q) + 1 < n"
          using "2.prems" Cons length_skip_ws [of q] by simp
        from "2.IH"(2) [OF Cons arr False this] Cons arr False show ?thesis by simp
      qed
    next
      case other
      with Cons show ?thesis by (simp split: option.splits)
    qed
  qed
next
  case (3 s acc)
  then show ?case by simp
next
  case (4 n s acc)
  have v: "json_value n s \<noteq> Starved" using "4.IH"(1) "4.prems" by simp
  show ?case
  proof (cases "json_value n s")
    case (Parsed w r1)
    from json_shorter(1) [OF Parsed] have l1: "length r1 < length s" .
    show ?thesis
    proof (cases "skip_ws r1")
      case Nil
      with Parsed show ?thesis by simp
    next
      case (Cons d r2)
      from skip_ws_Cons_length [OF Cons] have l2: "length r2 < length r1" .
      show ?thesis
      proof (cases "d = 44")
        case True
        have "2 * length (skip_ws r2) + 1 < n"
          using "4.prems" l1 l2 length_skip_ws [of r2] by simp
        from "4.IH"(2) [OF Parsed Cons True this] Parsed Cons True show ?thesis by simp
      next
        case False
        with Parsed Cons show ?thesis by simp
      qed
    qed
  next
    case Reject
    then show ?thesis by simp
  next
    case Starved
    with v show ?thesis by simp
  qed
next
  case (5 s macc)
  then show ?case by simp
next
  case (6 n s macc)
  show ?case
  proof (cases s)
    case Nil
    then show ?thesis by simp
  next
    case s: (Cons c q)
    show ?thesis
    proof (cases "c \<noteq> 34")
      case True
      with s show ?thesis by simp
    next
      case c: False
      show ?thesis
      proof (cases "json_string q")
        case None
        with s c show ?thesis by simp
      next
        case (Some kr)
        obtain k r1 where kr: "kr = (k, r1)" by (cases kr)
        from Some kr have k: "json_string q = Some (k, r1)" by simp
        from json_string_shorter [OF k] have l1: "length r1 < length q" .
        show ?thesis
        proof (cases "skip_ws r1")
          case Nil
          with s c k show ?thesis by simp
        next
          case d: (Cons d r2)
          from skip_ws_Cons_length [OF d] have l2: "length r2 < length r1" .
          show ?thesis
          proof (cases "d \<noteq> 58")
            case True
            with s c k d show ?thesis by simp
          next
            case d58: False
            have f: "2 * length (skip_ws r2) < n"
              using "6.prems" s l1 l2 length_skip_ws [of r2] by simp
            have v: "json_value n (skip_ws r2) \<noteq> Starved"
              using "6.IH"(1) [OF s c _ _ d d58 f, of "(k, r1)" k] k by simp
            show ?thesis
            proof (cases "json_value n (skip_ws r2)")
              case (Parsed w r3)
              from json_shorter(1) [OF Parsed] have l3: "length r3 < length (skip_ws r2)" .
              show ?thesis
              proof (cases "skip_ws r3")
                case Nil
                with s c k d d58 Parsed show ?thesis by simp
              next
                case e: (Cons e r4)
                from skip_ws_Cons_length [OF e] have l4: "length r4 < length r3" .
                show ?thesis
                proof (cases "e = 44")
                  case True
                  have "2 * length (skip_ws r4) + 1 < n"
                    using "6.prems" s l1 l2 l3 l4 length_skip_ws [of r2] length_skip_ws [of r4]
                    by simp
                  from "6.IH"(2) [OF s c _ _ d d58 Parsed e True this, of "(k, r1)"] k
                  show ?thesis using s c d d58 Parsed e True by simp
                next
                  case False
                  with s c k d d58 Parsed e show ?thesis by simp
                qed
              qed
            next
              case Reject
              with s c k d d58 show ?thesis by simp
            next
              case Starved
              with v show ?thesis by simp
            qed
          qed
        qed
      qed
    qed
  qed
qed

lemma JSON_parse_fuel: "json_value (2 * length s + 1) (skip_ws s) \<noteq> Starved"
  using json_fuel(1) [of "skip_ws s" "2 * length s + 1"] length_skip_ws [of s] by simp


section \<open>Evaluation\<close>

text \<open>Unfolding a parser function at a numeral bound.\<close>

lemmas json_numeral [simp] =
  json_value.simps(2) [of "pred_numeral k" for k, folded numeral_eq_Suc]
  json_elements.simps(2) [of "pred_numeral k" for k, folded numeral_eq_Suc]
  json_members.simps(2) [of "pred_numeral k" for k, folded numeral_eq_Suc]

lemmas text_eval = str_def trim_def isWhiteSpace_def startsWith_def endsWith_def includes_text_def
  substring_def Let_def
lemmas json_eval = JSON_parse_def skip_ws_def json_ws_def json_number_def json_int_def json_frac_def
  json_exp_def isDigit_def decimalValue_def json_escape_def
  JSON_stringify_def QuoteJSONString_def wrapParts_def ownProperties_def isArrayIndex_def
lemmas extract_eval = extractToolCallFromResponse_def selectCandidate_def noContent_def
  validateCandidate_def tryToolCall_def codeBlockContent_def matchJsonBlock_def matchBlock_def fence_def
  startsWithJsonIgnoreCase_def

section \<open>The extractor\<close>

text \<open>
  C5. When the trimmed input is exactly \<open>I need to call a function.\<close>, with or
  without the final period, the extractor returns none, whatever the candidate selection
  and validation would have found.
\<close>

theorem C5_sentinel_returns_none:
  assumes "trim response = str ''I need to call a function.''
           \<or> trim response = str ''I need to call a function''"
  shows "extractToolCallFromResponse e response = Inr None"
  using assms by (simp add: extractToolCallFromResponse_def)

theorem C5_sentinel_returns_none_witness:
  "extractToolCallFromResponse env0 (str ''  I need to call a function. '') = Inr None
   \<and> extractToolCallFromResponse env0 (str ''I need to call a function'') = Inr None"
proof -
  have a: "trim (str ''  I need to call a function. '') = str ''I need to call a function.''"
    by (simp add: text_eval)
  have b: "trim (str ''I need to call a function'') = str ''I need to call a function''"
    by (simp add: text_eval)
  show ?thesis
    using C5_sentinel_returns_none [of "str ''  I need to call a function. ''" env0]
      C5_sentinel_returns_none [of "str ''I need to call a function''" env0] a b
    by blast
qed

text \<open>
  C10. The extractor is total: for every input text it returns a call or none and never
  throws. The only statements that can throw (\<open>JSON.parse\<close> on a candidate that is
  not valid JSON, a property read on \<open>null\<close>) are inside the \<open>try\<close> block, whose
  \<open>catch\<close> leads to \<open>return null\<close>; so a candidate that does not parse yields none.
\<close>

theorem C10_extractor_total:
  "(\<exists>r. extractToolCallFromResponse e response = Inr r)
   \<and> (\<forall>x. JSON_parse jsonContent = Inl x \<longrightarrow> validateCandidate e jsonContent = Inr None)"
  by (auto simp: extractToolCallFromResponse_def validateCandidate_def tryToolCall_def
      split: option.splits sum.splits)

theorem C10_extractor_total_witness:
  "JSON_parse (str ''invalid json content'') = Inl SyntaxError
   \<and> validateCandidate env0 (str ''invalid json content'') = Inr None
   \<and> extractToolCallFromResponse env0 (str ''```json invalid json content ```'') = Inr None"
proof -
  have p: "JSON_parse (str ''invalid json content'') = Inl SyntaxError"
    by (simp add: text_eval json_eval)
  have s: "selectCandidate (str ''```json invalid json content ```'')
           = Some (str ''invalid json content'')"
    by (simp add: text_eval extract_eval)
  have t: "trim (str ''```json invalid json content ```'') = str ''```json invalid json content ```''"
    by (simp add: text_eval)
  from C10_extractor_total [of env0 "str ''x''" "str ''invalid json content''"] p
  have v: "validateCandidate env0 (str ''invalid json content'') = Inr None" by blast
  have "extractToolCallFromResponse env0 (str ''```json invalid json content ```'') = Inr None"
    unfolding extractToolCallFromResponse_def s t using v by (simp add: str_def)
  with p v show ?thesis by simp
qed







lemma braceScan_keeps_startIdx:
  "startIdx \<noteq> - 1 \<Longrightarrow> braceScan response i braceCount startIdx rest = Some c \<Longrightarrow>
   \<exists>j. c = substring response (nat startIdx) j"
  by (induction rest arbitrary: i braceCount) (auto split: if_splits)

text \<open>
  Whatever the scan returns starts at the first opening brace it meets: a candidate
  rejected for lack of the marker does not move the start.
\<close>

lemma braceScan_starts_at_first_brace:
  "braceScan response i braceCount (- 1) rest = Some c \<Longrightarrow>
   \<exists>k j. k < length rest \<and> rest ! k = 123 \<and> 123 \<notin> set (take k rest)
         \<and> c = substring response (i + k) j"
proof (induction rest arbitrary: i braceCount)
  case Nil
  then show ?case by simp
next
  case (Cons c0 rest)
  show ?case
  proof (cases "c0 = 123")
    case True
    with Cons.prems have "braceScan response (i + 1) (braceCount + 1) (int i) rest = Some c"
      by simp
    from braceScan_keeps_startIdx [OF _ this] obtain j where "c = substring response i j"
      by auto
    with True show ?thesis by (intro exI [of _ 0] exI [of _ j]) simp
  next
    case False
    with Cons.prems obtain b where "braceScan response (i + 1) b (- 1) rest = Some c"
      by (auto split: if_splits)
    from Cons.IH [OF this] obtain k j where
      "k < length rest" "rest ! k = 123" "123 \<notin> set (take k rest)"
      "c = substring response (i + 1 + k) j"
      by blast
    with False show ?thesis by (intro exI [of _ "Suc k"] exI [of _ j]) simp
  qed
qed

text \<open>
  C3. The scan does not start a new candidate after rejecting one: \<open>startIdx\<close> keeps
  the position of the first opening brace of the text. For a balanced object without
  the marker followed by a balanced object with the marker, the candidate runs from the
  first object's opening brace to the second object's closing brace; it is not valid
  JSON and the extractor returns none, although the second object alone encodes a call.
\<close>

theorem C3_scan_keeps_first_brace:
  "selectCandidate (str ''x {\"a\":1} '' @ callX) = Some (str ''{\"a\":1} '' @ callX)
   \<and> extractToolCallFromResponse env0 (str ''x {\"a\":1} '' @ callX) = Inr None
   \<and> extractToolCallFromResponse env0 callX = Inr (Some toolCallX)"
  by (simp add: callX_def toolCallX_def text_eval json_eval extract_eval env0_def)

section \<open>The streaming handler\<close>

lemma handleStreamingRequest_round:
  assumes "0 < configuredMaxRounds config"
    and "prepareMessagesForTarget (workingMessages e request) = Inr payload"
    and "streamTargetLLM payload = (chunks, None)"
    and "consume (hasToolResponse request) initialStreamState chunks = (st, yielded)"
    and "onEnd e (hasToolResponse request) st = (final, thrown, acts)"
  shows "outcome (handleStreamingRequest config e streamTargetLLM request) = (yielded @ final, thrown)"
    and "trace (handleStreamingRequest config e streamTargetLLM request)
         = initTrace request @ [CalledBackend payload] @ acts"
  using assms by (simp_all add: handleStreamingRequest_def)

lemmas stream_eval = onChunk_def onEnd_def looksLikeToolCall_def initialStreamState_def
  extractTextBeforeToolCall_def matchAnyBlock_def matchRawJson_def
  Content_def End_def ToolCallEvent_def

text \<open>
  C2. With no tool-role message in the conversation, the three deltas
  \<open>{"function\<close>, \<open>_call":{"name":"x",\<close> and \<open>"arguments":{}}}\<close> yield exactly two
  chunks: the call of \<open>x\<close> with arguments \<open>{}\<close>, then the end with reason
  \<open>tool_calls\<close>; no content precedes them. (The round runs when the round budget is
  positive and the payload can be prepared.)
\<close>

theorem C2_fragmented_call_detected:
  assumes "\<not> hasToolResponse request"
    and "0 < configuredMaxRounds config"
    and "prepareMessagesForTarget (workingMessages e request) = Inr payload"
    and "streamTargetLLM payload
         = ([str ''{\"function'', str ''_call\":{\"name\":\"x\",'', str ''\"arguments\":{}}}''], None)"
  shows "outcome (handleStreamingRequest config e streamTargetLLM request)
         = ([ToolCallEvent \<lparr>call_id = fresh_call_id e, call_type = str ''function'',
                              call_function_name = JString (str ''x''),
                              call_function_arguments = str ''{}''\<rparr>,
             End (str ''tool_calls'')], None)"
proof -
  let ?chunks = "[str ''{\"function'', str ''_call\":{\"name\":\"x\",'', str ''\"arguments\":{}}}'']"
  let ?full = "str ''{\"function_call\":{\"name\":\"x\",\"arguments\":{}}}''"
  have c: "consume False initialStreamState ?chunks
           = (\<lparr>fullResponse = ?full, toolCallDetected = True, bufferedChunks = ?chunks\<rparr>, [])"
    by (simp add: stream_eval text_eval)
  have x: "extractToolCallFromResponse e ?full
           = Inr (Some \<lparr>call_id = fresh_call_id e, call_type = str ''function'',
                          call_function_name = JString (str ''x''),
                          call_function_arguments = str ''{}''\<rparr>)"
    by (simp add: text_eval json_eval extract_eval)
  have b: "extractTextBeforeToolCall ?full = []"
    by (simp add: text_eval stream_eval fence_def)
  have f: "onEnd e False \<lparr>fullResponse = ?full, toolCallDetected = True, bufferedChunks = ?chunks\<rparr>
           = ([ToolCallEvent \<lparr>call_id = fresh_call_id e, call_type = str ''function'',
                              call_function_name = JString (str ''x''),
                              call_function_arguments = str ''{}''\<rparr>,
               End (str ''tool_calls'')], None, [RanExtractor ?full])"
    unfolding onEnd_def by (simp add: x b ToolCallEvent_def End_def)
  from assms c f show ?thesis by (simp add: handleStreamingRequest_def)
qed

lemma userRequest_plain:
  "\<not> hasToolResponse userRequest"
  "workingMessages e userRequest = [plainMessage User (str ''hi'')]"
  "prepareMessagesForTarget [plainMessage User (str ''hi'')] = Inr [plainMessage User (str ''hi'')]"
  "initTrace userRequest = []"
  by (simp_all add: userRequest_def hasToolResponse_def workingMessages_def shouldInjectTools_def
      requestTools_def plainMessage_def prepareMessage_def orEmpty_def initTrace_def)

lemma config0_rounds: "configuredMaxRounds config0 = 10"
  by (simp add: configuredMaxRounds_def config0_def)

theorem C2_fragmented_call_detected_witness:
  "\<not> hasToolResponse userRequest \<and> 0 < configuredMaxRounds config0
   \<and> outcome (handleStreamingRequest config0 env0
        (streamOf [str ''{\"function'', str ''_call\":{\"name\":\"x\",'', str ''\"arguments\":{}}}''])
        userRequest)
     = ([ToolCallEvent toolCallX, End (str ''tool_calls'')], None)"
proof -
  have r: "0 < configuredMaxRounds config0" by (simp add: config0_rounds)
  have p: "prepareMessagesForTarget (workingMessages env0 userRequest)
           = Inr [plainMessage User (str ''hi'')]"
    by (simp only: userRequest_plain)
  have s: "streamOf [str ''{\"function'', str ''_call\":{\"name\":\"x\",'', str ''\"arguments\":{}}}'']
             [plainMessage User (str ''hi'')]
           = ([str ''{\"function'', str ''_call\":{\"name\":\"x\",'', str ''\"arguments\":{}}}''], None)"
    by (simp add: streamOf_def)
  from C2_fragmented_call_detected [OF userRequest_plain(1) r p, of "streamOf [str ''{\"function'', str ''_call\":{\"name\":\"x\",'', str ''\"arguments\":{}}}'']", OF s]
    userRequest_plain(1) r
  show ?thesis by (simp add: toolCallX_def env0_def)
qed

subsection \<open>The loop over the deltas\<close>

lemma extract_never_throws: "\<exists>r. extractToolCallFromResponse e response = Inr r"
  by (auto simp: extractToolCallFromResponse_def validateCandidate_def
      split: option.splits sum.splits)

lemma contentText_Content [simp]: "contentText (map Content xs) = concat xs"
  by (induction xs) (simp_all add: contentText_def Content_def createStreamChunk_def orEmpty_def)

lemma contentText_append [simp]: "contentText (xs @ ys) = contentText xs @ contentText ys"
  by (simp add: contentText_def)

lemma contentText_End [simp]: "contentText [End r] = []"
  by (simp add: contentText_def End_def createStreamChunk_def orEmpty_def)

lemma contentText_ToolCallEvent [simp]: "contentText [ToolCallEvent c] = []"
  by (simp add: contentText_def ToolCallEvent_def createToolCallStreamChunk_def orEmpty_def)

lemma contentText_Nil [simp]: "contentText [] = []"
  by (simp add: contentText_def)

lemma contentText_single [simp]: "contentText [Content t] = t"
  by (simp add: contentText_def Content_def createStreamChunk_def orEmpty_def)

text \<open>On a finalization round every delta is yielded as it arrives.\<close>

lemma consume_finalization:
  "consume True st chunks
   = (st\<lparr>fullResponse := fullResponse st @ concat chunks\<rparr>, map Content chunks)"
  by (induction chunks arbitrary: st) (simp_all add: onChunk_def Content_def)

text \<open>Once a call is suspected every delta is buffered and nothing is yielded.\<close>

lemma consume_buffering:
  "toolCallDetected st \<Longrightarrow>
   consume False st chunks
   = (st\<lparr>fullResponse := fullResponse st @ concat chunks,
          bufferedChunks := bufferedChunks st @ chunks\<rparr>, [])"
  by (induction chunks arbitrary: st) (simp_all add: onChunk_def)

text \<open>
  Before that, the deltas split into those yielded at once and those buffered from the
  first suspicion on.
\<close>

lemma consume_passthrough:
  "\<not> toolCallDetected st \<Longrightarrow>
   \<exists>passed buffered.
     chunks = passed @ buffered
     \<and> consume False st chunks
       = (st\<lparr>fullResponse := fullResponse st @ concat chunks,
              toolCallDetected := (buffered \<noteq> []),
              bufferedChunks := bufferedChunks st @ buffered\<rparr>, map Content passed)"
proof (induction chunks arbitrary: st)
  case Nil
  then show ?case by simp
next
  case (Cons chunk rest)
  show ?case
  proof (cases "looksLikeToolCall (fullResponse st @ chunk)")
    case True
    let ?st1 = "st\<lparr>fullResponse := fullResponse st @ chunk, toolCallDetected := True,
                    bufferedChunks := bufferedChunks st @ [chunk]\<rparr>"
    from True Cons.prems have o: "onChunk False st chunk = (?st1, [])"
      by (simp add: onChunk_def)
    have d: "toolCallDetected ?st1" by simp
    have "consume False st (chunk # rest)
          = (st\<lparr>fullResponse := fullResponse st @ concat (chunk # rest),
                 toolCallDetected := (chunk # rest \<noteq> []),
                 bufferedChunks := bufferedChunks st @ (chunk # rest)\<rparr>, map Content [])"
      using o consume_buffering [OF d, of rest] by simp
    then show ?thesis by (intro exI [of _ "[]"] exI [of _ "chunk # rest"]) simp
  next
    case False
    let ?st1 = "st\<lparr>fullResponse := fullResponse st @ chunk\<rparr>"
    from False Cons.prems have o: "onChunk False st chunk = (?st1, [Content chunk])"
      by (simp add: onChunk_def Content_def)
    from Cons.prems have "\<not> toolCallDetected ?st1" by simp
    from Cons.IH [OF this] obtain passed buffered where
      r: "rest = passed @ buffered"
      and c: "consume False ?st1 rest
              = (?st1\<lparr>fullResponse := fullResponse ?st1 @ concat rest,
                       toolCallDetected := (buffered \<noteq> []),
                       bufferedChunks := bufferedChunks ?st1 @ buffered\<rparr>, map Content passed)"
      by blast
    have "consume False st (chunk # rest)
          = (st\<lparr>fullResponse := fullResponse st @ concat (chunk # rest),
                 toolCallDetected := (buffered \<noteq> []),
                 bufferedChunks := bufferedChunks st @ buffered\<rparr>, map Content (chunk # passed))"
      using o c by simp
    with r show ?thesis by (intro exI [of _ "chunk # passed"] exI [of _ buffered]) simp
  qed
qed

lemma consume_initial:
  "\<exists>passed buffered.
     chunks = passed @ buffered
     \<and> consume False initialStreamState chunks
       = (\<lparr>fullResponse = concat chunks, toolCallDetected = (buffered \<noteq> []),
           bufferedChunks = buffered\<rparr>, map Content passed)"
  using consume_passthrough [of initialStreamState chunks]
  by (simp add: initialStreamState_def)


lemma onEnd_no_call:
  assumes "extractToolCallFromResponse e (fullResponse st) = Inr None"
  shows "onEnd e False st
         = ((if toolCallDetected st \<and> bufferedChunks st \<noteq> []
             then map Content (bufferedChunks st) else []) @ [End (str ''stop'')],
            None, [RanExtractor (fullResponse st)])"
  using assms by (simp add: onEnd_def Content_def End_def)

lemma onEnd_call:
  assumes "extractToolCallFromResponse e (fullResponse st) = Inr (Some toolCall)"
  shows "onEnd e False st
         = ((if trim (extractTextBeforeToolCall (fullResponse st)) \<noteq> []
             then [Content (extractTextBeforeToolCall (fullResponse st))] else [])
            @ [ToolCallEvent toolCall, End (str ''tool_calls'')],
            None, [RanExtractor (fullResponse st)])"
proof -
  have "trim [] = []" by (simp add: trim_def)
  then have "extractTextBeforeToolCall (fullResponse st) \<noteq> []
             \<and> trim (extractTextBeforeToolCall (fullResponse st)) \<noteq> []
             \<longleftrightarrow> trim (extractTextBeforeToolCall (fullResponse st)) \<noteq> []"
    by auto
  with assms show ?thesis
    by (simp add: onEnd_def Content_def End_def ToolCallEvent_def)
qed

text \<open>
  C8. On a round without tool-role history whose accumulated text holds no call: if a
  call had been suspected, the buffered deltas are replayed as content in arrival order
  and the stream ends with reason \<open>stop\<close>; if none had been suspected, nothing is
  buffered, every delta has already been yielded, and only the end follows. The
  buffered deltas are the deltas from the first suspicion on.
\<close>

theorem C8_false_positive_replay:
  assumes "\<not> hasToolResponse request"
    and "0 < configuredMaxRounds config"
    and "prepareMessagesForTarget (workingMessages e request) = Inr payload"
    and "streamTargetLLM payload = (chunks, None)"
    and "extractToolCallFromResponse e (concat chunks) = Inr None"
    and "consume False initialStreamState chunks = (st, yielded)"
  shows "outcome (handleStreamingRequest config e streamTargetLLM request)
           = (yielded @ (if toolCallDetected st then map Content (bufferedChunks st) else [])
              @ [End (str ''stop'')], None)
         \<and> (\<exists>passed. chunks = passed @ bufferedChunks st \<and> yielded = map Content passed)
         \<and> (\<not> toolCallDetected st \<longrightarrow> bufferedChunks st = [] \<and> yielded = map Content chunks)"
proof -
  from consume_initial [of chunks] assms(6) obtain passed buffered where
    c: "chunks = passed @ buffered"
    and st: "st = \<lparr>fullResponse = concat chunks, toolCallDetected = (buffered \<noteq> []),
                  bufferedChunks = buffered\<rparr>"
    and y: "yielded = map Content passed"
    by auto
  from st assms(5) have x: "extractToolCallFromResponse e (fullResponse st) = Inr None" by simp
  have o: "outcome (handleStreamingRequest config e streamTargetLLM request)
           = (yielded @ (if toolCallDetected st then map Content (bufferedChunks st) else [])
              @ [End (str ''stop'')], None)"
    using assms(1-4,6) onEnd_no_call [OF x] st
    by (simp add: handleStreamingRequest_def)
  from c st y have "\<exists>passed. chunks = passed @ bufferedChunks st \<and> yielded = map Content passed"
    by auto
  moreover from c st y
  have "\<not> toolCallDetected st \<longrightarrow> bufferedChunks st = [] \<and> yielded = map Content chunks"
    by auto
  ultimately show ?thesis using o by blast
qed

theorem C8_false_positive_replay_witness:
  "outcome (handleStreamingRequest config0 env0 (streamOf [str ''{not'', str '' json}'']) userRequest)
     = ([Content (str ''{not''), Content (str '' json}''), End (str ''stop'')], None)
   \<and> outcome (handleStreamingRequest config0 env0 (streamOf [str ''Hello'', str '' world'']) userRequest)
     = ([Content (str ''Hello''), Content (str '' world''), End (str ''stop'')], None)"
proof -
  have r: "0 < configuredMaxRounds config0" by (simp add: config0_rounds)
  have p: "prepareMessagesForTarget (workingMessages env0 userRequest)
           = Inr [plainMessage User (str ''hi'')]"
    by (simp only: userRequest_plain)
  have s1: "streamOf [str ''{not'', str '' json}''] [plainMessage User (str ''hi'')]
            = ([str ''{not'', str '' json}''], None)"
    by (simp add: streamOf_def)
  have x1: "extractToolCallFromResponse env0 (concat [str ''{not'', str '' json}'']) = Inr None"
    by (simp add: text_eval json_eval extract_eval)
  have c1: "consume False initialStreamState [str ''{not'', str '' json}'']
            = (\<lparr>fullResponse = str ''{not json}'', toolCallDetected = True,
                bufferedChunks = [str ''{not'', str '' json}'']\<rparr>, [])"
    by (simp add: stream_eval text_eval)
  have s2: "streamOf [str ''Hello'', str '' world''] [plainMessage User (str ''hi'')]
            = ([str ''Hello'', str '' world''], None)"
    by (simp add: streamOf_def)
  have x2: "extractToolCallFromResponse env0 (concat [str ''Hello'', str '' world'']) = Inr None"
    by (simp add: text_eval json_eval extract_eval)
  have c2: "consume False initialStreamState [str ''Hello'', str '' world'']
            = (\<lparr>fullResponse = str ''Hello world'', toolCallDetected = False,
                bufferedChunks = []\<rparr>, [Content (str ''Hello''), Content (str '' world'')])"
    by (simp add: stream_eval text_eval)
  from C8_false_positive_replay [OF userRequest_plain(1) r p, of "streamOf [str ''{not'', str '' json}'']", OF s1 x1 c1]
    C8_false_positive_replay [OF userRequest_plain(1) r p, of "streamOf [str ''Hello'', str '' world'']", OF s2 x2 c2]
  show ?thesis by simp
qed

lemma contentText_Cons [simp]:
  "contentText (Content t # evs) = t @ contentText evs"
  "contentText (End r # evs) = contentText evs"
  "contentText (ToolCallEvent c # evs) = contentText evs"
  by (simp_all add: contentText_def Content_def End_def ToolCallEvent_def createStreamChunk_def
      createToolCallStreamChunk_def orEmpty_def)





text \<open>
  Text yielded before the suspicion is yielded again as the text before the call: the
  deltas \<open>Hi \<close> and \<open>{"function_call":{"name":"x"}}\<close> give the content \<open>Hi \<close>, the
  content \<open>Hi\<close>, the call and the end.
\<close>

lemma passthrough_text_repeated:
  "outcome (handleStreamingRequest config0 env0 (streamOf [str ''Hi '', callX]) userRequest)
   = ([Content (str ''Hi ''), Content (str ''Hi''), ToolCallEvent toolCallX,
       End (str ''tool_calls'')], None)"
proof -
  have c: "consume False initialStreamState [str ''Hi '', callX]
           = (\<lparr>fullResponse = str ''Hi '' @ callX, toolCallDetected = True,
               bufferedChunks = [callX]\<rparr>, [Content (str ''Hi '')])"
    by (simp add: callX_def stream_eval text_eval)
  have x: "extractToolCallFromResponse env0 (str ''Hi '' @ callX) = Inr (Some toolCallX)"
    by (simp add: callX_def toolCallX_def text_eval json_eval extract_eval env0_def)
  have b: "extractTextBeforeToolCall (str ''Hi '' @ callX) = str ''Hi''"
    by (simp add: callX_def stream_eval text_eval fence_def)
  have t: "trim (str ''Hi'') \<noteq> []" by (simp add: text_eval)
  have f: "onEnd env0 False \<lparr>fullResponse = str ''Hi '' @ callX, toolCallDetected = True,
               bufferedChunks = [callX]\<rparr>
           = ([Content (str ''Hi''), ToolCallEvent toolCallX, End (str ''tool_calls'')], None,
              [RanExtractor (str ''Hi '' @ callX)])"
    using onEnd_call [of env0 "\<lparr>fullResponse = str ''Hi '' @ callX, toolCallDetected = True,
               bufferedChunks = [callX]\<rparr>" toolCallX] x b t by simp
  show ?thesis
    using userRequest_plain config0_rounds c f
    by (simp add: handleStreamingRequest_def streamOf_def)
qed

section \<open>Rounds\<close>

lemma onEnd_finalization: "onEnd e True st = ([End (str ''stop'')], None, [])"
  by (simp add: onEnd_def End_def)

lemma finalization_setup:
  assumes "hasToolResponse request"
  shows "\<not> shouldInjectTools request" "initTrace request = []"
    "workingMessages e request = messages request" "callerMessages e request = messages request"
  using assms
  by (simp_all add: shouldInjectTools_def initTrace_def workingMessages_def callerMessages_def)

text \<open>
  C7. When the conversation holds a tool-role message, whatever the tool list: neither
  handler runs the prompt compiler or the extractor, and the caller's messages are left
  as they were; the non-streaming handler answers with the reply as plain text; in the
  streaming handler each delta is yielded as content when it arrives and nothing is
  buffered, and when the source is exhausted the stream ends with reason \<open>stop\<close>.
\<close>

theorem C7_finalization_round:
  assumes "hasToolResponse request"
  shows "list_all (\<lambda>a. \<not> isPromptCompilation a \<and> \<not> isExtraction a)
           (trace (handleRequest config e callTargetLLM request))
       \<and> list_all (\<lambda>a. \<not> isPromptCompilation a \<and> \<not> isExtraction a)
           (trace (handleStreamingRequest config e streamTargetLLM request))
       \<and> request_messages (handleRequest config e callTargetLLM request) = messages request
       \<and> request_messages (handleStreamingRequest config e streamTargetLLM request)
           = messages request
       \<and> onChunk (hasToolResponse request) st chunk
           = (st\<lparr>fullResponse := fullResponse st @ chunk\<rparr>, [Content chunk])
       \<and> (0 < configuredMaxRounds config
            \<and> prepareMessagesForTarget (messages request) = Inr payload \<longrightarrow>
          (\<forall>chunks. streamTargetLLM payload = (chunks, None) \<longrightarrow>
             outcome (handleStreamingRequest config e streamTargetLLM request)
             = (map Content chunks @ [End (str ''stop'')], None))
          \<and> (\<forall>response. callTargetLLM payload = Inr response \<longrightarrow>
             outcome (handleRequest config e callTargetLLM request)
             = Inr (createCompletionResponse response)))"
proof -
  note s = finalization_setup [OF assms]
  have a: "list_all (\<lambda>a. \<not> isPromptCompilation a \<and> \<not> isExtraction a)
           (trace (handleRequest config e callTargetLLM request))"
    using assms s by (simp add: handleRequest_def answerRound_def split: sum.splits)
  have b: "list_all (\<lambda>a. \<not> isPromptCompilation a \<and> \<not> isExtraction a)
           (trace (handleStreamingRequest config e streamTargetLLM request))"
    using assms s
    by (simp add: handleStreamingRequest_def onEnd_finalization
        split: sum.splits prod.splits option.splits)
  have c: "request_messages (handleRequest config e callTargetLLM request) = messages request"
    using s by (simp add: handleRequest_def split: sum.splits)
  have d: "request_messages (handleStreamingRequest config e streamTargetLLM request)
           = messages request"
    using s
    by (simp add: handleStreamingRequest_def split: sum.splits prod.splits option.splits)
  have f: "onChunk (hasToolResponse request) st chunk
           = (st\<lparr>fullResponse := fullResponse st @ chunk\<rparr>, [Content chunk])"
    using assms by (simp add: onChunk_def Content_def)
  have g: "outcome (handleStreamingRequest config e streamTargetLLM request)
             = (map Content chunks @ [End (str ''stop'')], None)"
    if "0 < configuredMaxRounds config" "prepareMessagesForTarget (messages request) = Inr payload"
      "streamTargetLLM payload = (chunks, None)" for chunks
    using that assms s
    by (simp add: handleStreamingRequest_def consume_finalization onEnd_finalization)
  have h: "outcome (handleRequest config e callTargetLLM request)
             = Inr (createCompletionResponse response)"
    if "0 < configuredMaxRounds config" "prepareMessagesForTarget (messages request) = Inr payload"
      "callTargetLLM payload = Inr response" for response
    using that assms s by (simp add: handleRequest_def answerRound_def)
  from a b c d f g h show ?thesis by blast
qed

lemma toolResultRequest_facts:
  "hasToolResponse toolResultRequest"
  "prepareMessagesForTarget (messages toolResultRequest)
   = Inr [plainMessage User (str ''hi''),
          plainMessage User (str ''Function \"get_weather\" returned: sunny'')]"
  by (simp_all add: toolResultRequest_def hasToolResponse_def plainMessage_def prepareMessage_def
      orEmpty_def convertToolMessageToUserMessage_def str_def)

theorem C7_finalization_round_witness:
  "hasToolResponse toolResultRequest \<and> tools toolResultRequest = Some [weatherTool]
   \<and> outcome (handleStreamingRequest config0 env0 (streamOf [str ''It is '', callX])
        toolResultRequest)
     = ([Content (str ''It is ''), Content callX, End (str ''stop'')], None)
   \<and> outcome (handleRequest config0 env0 (replyWith callX) toolResultRequest)
     = Inr (createCompletionResponse callX)
   \<and> trace (handleRequest config0 env0 (replyWith callX) toolResultRequest)
     = [CalledBackend [plainMessage User (str ''hi''),
          plainMessage User (str ''Function \"get_weather\" returned: sunny'')]]"
proof -
  let ?payload = "[plainMessage User (str ''hi''),
          plainMessage User (str ''Function \"get_weather\" returned: sunny'')]"
  have r: "0 < configuredMaxRounds config0" by (simp add: config0_rounds)
  have s: "streamOf [str ''It is '', callX] ?payload = ([str ''It is '', callX], None)"
    by (simp add: streamOf_def)
  have l: "replyWith callX ?payload = Inr callX" by (simp add: replyWith_def)
  from C7_finalization_round [OF toolResultRequest_facts(1), of config0 env0 "replyWith callX"
      "streamOf [str ''It is '', callX]" initialStreamState "[]" ?payload]
    r toolResultRequest_facts(2) s l
  have o: "outcome (handleStreamingRequest config0 env0 (streamOf [str ''It is '', callX])
        toolResultRequest)
     = (map Content [str ''It is '', callX] @ [End (str ''stop'')], None)"
    and q: "outcome (handleRequest config0 env0 (replyWith callX) toolResultRequest)
     = Inr (createCompletionResponse callX)"
    by blast+
  have t: "trace (handleRequest config0 env0 (replyWith callX) toolResultRequest)
     = [CalledBackend ?payload]"
    using r toolResultRequest_facts l finalization_setup [OF toolResultRequest_facts(1)]
    by (simp add: handleRequest_def answerRound_def)
  from o q t toolResultRequest_facts(1) show ?thesis by (simp add: toolResultRequest_def)
qed

text \<open>
  C6. For an empty tool list, and for an absent one, the prompt compiler returns the
  empty text; the handlers do not run it, work on the conversation as received, send the
  backend the payload prepared from it, and leave the caller's messages as they were: no
  system message is created or changed.
\<close>

theorem C6_no_tools_no_injection:
  assumes "tools request = None \<or> tools request = Some []"
  shows "convertToolsToSystemPrompt e (tools request) = []
       \<and> workingMessages e request = messages request
       \<and> request_messages (handleRequest config e callTargetLLM request) = messages request
       \<and> request_messages (handleStreamingRequest config e streamTargetLLM request)
           = messages request
       \<and> list_all (\<lambda>a. \<not> isPromptCompilation a)
           (trace (handleRequest config e callTargetLLM request))
       \<and> list_all (\<lambda>a. \<not> isPromptCompilation a)
           (trace (handleStreamingRequest config e streamTargetLLM request))
       \<and> (\<forall>payload. CalledBackend payload \<in> set (trace (handleRequest config e callTargetLLM request))
             \<or> CalledBackend payload
                \<in> set (trace (handleStreamingRequest config e streamTargetLLM request))
            \<longrightarrow> prepareMessagesForTarget (messages request) = Inr payload)"
proof -
  from assms have n: "\<not> shouldInjectTools request"
    by (auto simp: shouldInjectTools_def requestTools_def)
  then have s: "initTrace request = []" "workingMessages e request = messages request"
    "callerMessages e request = messages request"
    by (simp_all add: initTrace_def workingMessages_def callerMessages_def)
  have a: "convertToolsToSystemPrompt e (tools request) = []"
    using assms by (auto simp: convertToolsToSystemPrompt_def)
  have c: "request_messages (handleRequest config e callTargetLLM request) = messages request"
    using s by (simp add: handleRequest_def split: sum.splits)
  have d: "request_messages (handleStreamingRequest config e streamTargetLLM request)
           = messages request"
    using s
    by (simp add: handleStreamingRequest_def split: sum.splits prod.splits option.splits)
  have t1: "trace (handleRequest config e callTargetLLM request) = []
            \<or> (\<exists>payload acts. prepareMessagesForTarget (messages request) = Inr payload
                 \<and> list_all isExtraction acts
                 \<and> trace (handleRequest config e callTargetLLM request)
                     = CalledBackend payload # acts)"
    using s by (auto simp: handleRequest_def answerRound_def split: sum.splits option.splits)
  have t2: "trace (handleStreamingRequest config e streamTargetLLM request) = []
            \<or> (\<exists>payload acts. prepareMessagesForTarget (messages request) = Inr payload
                 \<and> list_all isExtraction acts
                 \<and> trace (handleStreamingRequest config e streamTargetLLM request)
                     = CalledBackend payload # acts)"
    using s
    by (auto simp: handleStreamingRequest_def onEnd_def
        split: sum.splits prod.splits option.splits)
  have e1: "list_all (\<lambda>a. \<not> isPromptCompilation a) acts
            \<and> (\<forall>p. CalledBackend p \<notin> set acts)" if "list_all isExtraction acts" for acts
    using that by (induction acts) (auto elim: isExtraction.elims)
  from t1 e1 have f1: "list_all (\<lambda>a. \<not> isPromptCompilation a)
           (trace (handleRequest config e callTargetLLM request))"
    and g1: "\<forall>payload. CalledBackend payload \<in> set (trace (handleRequest config e callTargetLLM request))
            \<longrightarrow> prepareMessagesForTarget (messages request) = Inr payload"
    by auto
  from t2 e1 have f2: "list_all (\<lambda>a. \<not> isPromptCompilation a)
           (trace (handleStreamingRequest config e streamTargetLLM request))"
    and g2: "\<forall>payload. CalledBackend payload
                \<in> set (trace (handleStreamingRequest config e streamTargetLLM request))
            \<longrightarrow> prepareMessagesForTarget (messages request) = Inr payload"
    by auto
  from a s(2) c d f1 f2 g1 g2 show ?thesis by blast
qed

theorem C6_no_tools_no_injection_witness:
  "convertToolsToSystemPrompt env0 (tools emptyToolsRequest) = []
   \<and> convertToolsToSystemPrompt env0 (tools userRequest) = []
   \<and> request_messages (handleRequest config0 env0 (replyWith (str ''ok'')) emptyToolsRequest)
     = [plainMessage System (str ''be brief''), plainMessage User (str ''hi'')]
   \<and> trace (handleRequest config0 env0 (replyWith (str ''ok'')) emptyToolsRequest)
     = [CalledBackend [plainMessage System (str ''be brief''), plainMessage User (str ''hi'')],
        RanExtractor (str ''ok'')]"
proof -
  have t: "tools emptyToolsRequest = None \<or> tools emptyToolsRequest = Some []"
    by (simp add: emptyToolsRequest_def)
  have u: "tools userRequest = None \<or> tools userRequest = Some []"
    by (simp add: userRequest_def)
  have m: "messages emptyToolsRequest
           = [plainMessage System (str ''be brief''), plainMessage User (str ''hi'')]"
    by (simp add: emptyToolsRequest_def)
  have p: "prepareMessagesForTarget (messages emptyToolsRequest)
           = Inr [plainMessage System (str ''be brief''), plainMessage User (str ''hi'')]"
    by (simp add: emptyToolsRequest_def plainMessage_def prepareMessage_def orEmpty_def)
  have x: "extractToolCallFromResponse env0 (str ''ok'') = Inr None"
    by (simp add: text_eval json_eval extract_eval)
  have h: "\<not> hasToolResponse emptyToolsRequest"
    by (simp add: emptyToolsRequest_def hasToolResponse_def plainMessage_def)
  have i: "initTrace emptyToolsRequest = []"
    by (simp add: initTrace_def shouldInjectTools_def requestTools_def emptyToolsRequest_def)
  from C6_no_tools_no_injection [OF t, of env0 config0 "replyWith (str ''ok'')" "streamOf []"]
  have a: "convertToolsToSystemPrompt env0 (tools emptyToolsRequest) = []"
    and w: "workingMessages env0 emptyToolsRequest = messages emptyToolsRequest"
    and r: "request_messages (handleRequest config0 env0 (replyWith (str ''ok'')) emptyToolsRequest)
            = messages emptyToolsRequest"
    by blast+
  from C6_no_tools_no_injection [OF u, of env0 config0 "replyWith (str ''ok'')" "streamOf []"]
  have b: "convertToolsToSystemPrompt env0 (tools userRequest) = []" by blast
  have tr: "trace (handleRequest config0 env0 (replyWith (str ''ok'')) emptyToolsRequest)
     = [CalledBackend [plainMessage System (str ''be brief''), plainMessage User (str ''hi'')],
        RanExtractor (str ''ok'')]"
    using w p x h i config0_rounds
    by (simp add: handleRequest_def answerRound_def replyWith_def)
  from a b r m tr show ?thesis by simp
qed

lemma prepareMessagesForTarget_error:
  "prepareMessagesForTarget ms = Inl x \<Longrightarrow> x = TypeError"
  by (induction ms arbitrary: x)
    (auto simp: prepareMessage_def split: sum.splits if_splits option.splits list.splits)

lemma answerRound_returns: "\<exists>response'. fst (answerRound e h response) = Inr response'"
  using extract_never_throws [of e response]
  by (auto simp: answerRound_def split: option.splits)

lemma answerRound_not_error [simp]: "fst (answerRound e h response) \<noteq> Inl x"
  using answerRound_returns [of e h response] by auto

lemma onEnd_never_throws: "fst (snd (onEnd e h st)) = None"
  using extract_never_throws [of e "fullResponse st"]
  by (auto simp: onEnd_def split: option.splits)

lemma onEnd_thrown: "onEnd e h st = (final, thrown, acts) \<Longrightarrow> thrown = None"
  using onEnd_never_throws [of e h st] by simp

text \<open>
  C9, as the code has it. The loop guard compares the counter \<open>round\<close>, which stays at
  its initial value 0 (no statement increments it), with the configured maximum (10
  when unset). When the maximum is positive the body runs once and ends the request: it
  returns a response, or propagates the error thrown while preparing the payload or by
  the backend; at most one backend call is made. The round-limit error is raised exactly
  when the guard fails at entry, that is when the configured maximum is negative.
\<close>

theorem C9_single_round:
  "round_counter (handleRequest config e callTargetLLM request) = 0
   \<and> round_counter (handleStreamingRequest config e streamTargetLLM request) = 0
   \<and> length (filter isBackendCall (trace (handleRequest config e callTargetLLM request))) \<le> 1
   \<and> length (filter isBackendCall
        (trace (handleStreamingRequest config e streamTargetLLM request))) \<le> 1
   \<and> (maxRounds config = None \<longrightarrow> configuredMaxRounds config = 10)
   \<and> (outcome (handleRequest config e callTargetLLM request)
        = Inl (RoundLimitExceeded (configuredMaxRounds config))
      \<longleftrightarrow> configuredMaxRounds config < 0)
   \<and> (snd (outcome (handleStreamingRequest config e streamTargetLLM request))
        = Some (RoundLimitExceeded (configuredMaxRounds config))
      \<longleftrightarrow> configuredMaxRounds config < 0)
   \<and> (0 < configuredMaxRounds config \<longrightarrow>
        (\<exists>response. outcome (handleRequest config e callTargetLLM request) = Inr response)
        \<or> outcome (handleRequest config e callTargetLLM request) = Inl TypeError
        \<or> (\<exists>failure. outcome (handleRequest config e callTargetLLM request)
                    = Inl (BackendFailure failure)))"
proof -
  have nz: "configuredMaxRounds config \<noteq> 0"
    by (simp add: configuredMaxRounds_def split: option.splits)
  have a: "round_counter (handleRequest config e callTargetLLM request) = 0"
    by (simp add: handleRequest_def split: sum.splits)
  have b: "round_counter (handleStreamingRequest config e streamTargetLLM request) = 0"
    by (simp add: handleStreamingRequest_def split: sum.splits prod.splits option.splits)
  have i: "filter isBackendCall (initTrace request) = []"
    by (simp add: initTrace_def)
  have j: "filter isBackendCall (snd (answerRound e h response)) = []" for h response
    by (simp add: answerRound_def split: sum.splits option.splits)
  have k: "filter isBackendCall (snd (snd (onEnd e h st))) = []" for h st
    by (simp add: onEnd_def split: sum.splits option.splits)
  have c: "length (filter isBackendCall (trace (handleRequest config e callTargetLLM request))) \<le> 1"
    by (simp add: handleRequest_def i j split: sum.splits)
  have d: "length (filter isBackendCall
        (trace (handleStreamingRequest config e streamTargetLLM request))) \<le> 1"
  proof -
    have "filter isBackendCall acts = []" if "onEnd e h st = (final, thrown, acts)"
      for h st final thrown acts
      using k [of h st] that by simp
    then show ?thesis
      by (simp add: handleStreamingRequest_def i split: sum.splits prod.splits option.splits)
  qed
  have f: "maxRounds config = None \<longrightarrow> configuredMaxRounds config = 10"
    by (simp add: configuredMaxRounds_def)
  have g: "outcome (handleRequest config e callTargetLLM request)
        = Inl (RoundLimitExceeded (configuredMaxRounds config))
      \<longleftrightarrow> configuredMaxRounds config < 0"
  proof (cases "0 < configuredMaxRounds config")
    case True
    then show ?thesis
      by (auto simp: handleRequest_def split: sum.splits dest: prepareMessagesForTarget_error)
  next
    case False
    with nz show ?thesis by (simp add: handleRequest_def)
  qed
  have h: "snd (outcome (handleStreamingRequest config e streamTargetLLM request))
        = Some (RoundLimitExceeded (configuredMaxRounds config))
      \<longleftrightarrow> configuredMaxRounds config < 0"
  proof (cases "0 < configuredMaxRounds config")
    case True
    then show ?thesis
      by (auto simp: handleStreamingRequest_def split: sum.splits prod.splits option.splits
          dest: prepareMessagesForTarget_error onEnd_thrown)
  next
    case False
    with nz show ?thesis by (simp add: handleStreamingRequest_def)
  qed
  have l: "0 < configuredMaxRounds config \<longrightarrow>
        (\<exists>response. outcome (handleRequest config e callTargetLLM request) = Inr response)
        \<or> outcome (handleRequest config e callTargetLLM request) = Inl TypeError
        \<or> (\<exists>failure. outcome (handleRequest config e callTargetLLM request)
                    = Inl (BackendFailure failure))"
  proof (intro impI)
    assume r: "0 < configuredMaxRounds config"
    show "(\<exists>response. outcome (handleRequest config e callTargetLLM request) = Inr response)
        \<or> outcome (handleRequest config e callTargetLLM request) = Inl TypeError
        \<or> (\<exists>failure. outcome (handleRequest config e callTargetLLM request)
                    = Inl (BackendFailure failure))"
    proof (cases "prepareMessagesForTarget (workingMessages e request)")
      case (Inl x)
      with prepareMessagesForTarget_error [OF Inl] r show ?thesis
        by (simp add: handleRequest_def)
    next
      case (Inr payload)
      show ?thesis
      proof (cases "callTargetLLM payload")
        case (Inl failure)
        with Inr r show ?thesis by (simp add: handleRequest_def)
      next
        case reply: (Inr response)
        with Inr r answerRound_returns [of e "hasToolResponse request" response]
        show ?thesis by (simp add: handleRequest_def)
      qed
    qed
  qed
  from a b c d f g h l show ?thesis by blast
qed

theorem C9_single_round_witness:
  "maxRounds config0 = None \<and> configuredMaxRounds config0 = 10
   \<and> outcome (handleRequest config0 env0 (replyWith (str ''ok'')) userRequest)
     = Inr (createCompletionResponse (str ''ok''))
   \<and> configuredMaxRounds negativeConfig < 0
   \<and> outcome (handleRequest negativeConfig env0 (replyWith (str ''ok'')) userRequest)
     = Inl (RoundLimitExceeded (- 1))"
proof -
  have n: "configuredMaxRounds negativeConfig = - 1"
    by (simp add: negativeConfig_def configuredMaxRounds_def)
  have m: "maxRounds config0 = None" by (simp add: config0_def)
  have x: "extractToolCallFromResponse env0 (str ''ok'') = Inr None"
    by (simp add: text_eval json_eval extract_eval)
  have o: "outcome (handleRequest config0 env0 (replyWith (str ''ok'')) userRequest)
     = Inr (createCompletionResponse (str ''ok''))"
    using userRequest_plain config0_rounds x
    by (simp add: handleRequest_def answerRound_def replyWith_def)
  from C9_single_round [of negativeConfig env0 "replyWith (str ''ok'')" userRequest "streamOf []"] n
  have q: "outcome (handleRequest negativeConfig env0 (replyWith (str ''ok'')) userRequest)
     = Inl (RoundLimitExceeded (- 1))"
    by simp
  from C9_single_round [of config0 env0 "replyWith (str ''ok'')" userRequest "streamOf []"] m
  have t: "configuredMaxRounds config0 = 10" by blast
  from m t o n q show ?thesis by simp
qed

text \<open>
  C9 as stated fails: the counter is not incremented. A request whose round runs, with
  one backend call, ends with \<open>round\<close> still 0.
\<close>

theorem C9_round_not_incremented_counterexample:
  "filter isBackendCall (trace (handleRequest config0 env0 (replyWith (str ''ok'')) userRequest))
     = [CalledBackend [plainMessage User (str ''hi'')]]
   \<and> round_counter (handleRequest config0 env0 (replyWith (str ''ok'')) userRequest) = 0"
proof -
  have x: "extractToolCallFromResponse env0 (str ''ok'') = Inr None"
    by (simp add: text_eval json_eval extract_eval)
  show ?thesis
    using userRequest_plain config0_rounds x
    by (simp add: handleRequest_def answerRound_def replyWith_def)
qed


end
